theory Spec2Isabelle
  imports Complex_Main "HOL-Library.Word"
begin

section \<open>The audio feature pipeline of src/web/app.js\<close>

text \<open>
  The embedding follows \<^verbatim>\<open>src/web/app.js\<close>: the class \<^verbatim>\<open>AudioAnalyser\<close> (lines 81-339),
  the class \<^verbatim>\<open>PaletteController\<close> (lines 593-631) and the helpers \<^verbatim>\<open>lerp\<close> and \<^verbatim>\<open>clamp\<close>
  (lines 892-898).

  JavaScript numbers are IEEE doubles; they are modelled as \<^typ>\<open>real\<close>, so rounding
  errors, the narrowing to 32 bit of the typed arrays and NaN are outside the model. The one
  infinite value the code uses, the threshold \<^verbatim>\<open>Infinity\<close> of \<^verbatim>\<open>_updateFluxHistory\<close>, is the
  value \<^term>\<open>None\<close> of a \<^typ>\<open>real option\<close>. The bytes of the \<^verbatim>\<open>Uint8Array\<close> are
  \<^typ>\<open>8 word\<close>. Every object of the source is a record, every method that assigns to
  fields of \<^verbatim>\<open>this\<close> takes the record and returns it updated.
\<close>

subsection \<open>CONFIG (lines 15-48)\<close>

named_theorems cfg \<open>the constants of CONFIG\<close>

definition fftSize :: nat where [cfg]: "fftSize = 2048"
definition barCount :: nat where [cfg]: "barCount = 96"
definition levelScale :: real where [cfg]: "levelScale = 320"
definition levelExponent :: real where [cfg]: "levelExponent = 0.56"
definition bandGain :: real where [cfg]: "bandGain = 20"
definition bandExponent :: real where [cfg]: "bandExponent = 0.7"
definition fluxHistorySize :: nat where [cfg]: "fluxHistorySize = 128"
definition fluxWindow :: nat where [cfg]: "fluxWindow = 24"
definition fluxMinWindow :: nat where [cfg]: "fluxMinWindow = 12"
definition fluxSensitivity :: real where [cfg]: "fluxSensitivity = 1.65"
definition fluxExponent :: real where [cfg]: "fluxExponent = 1.18"
definition fluxDeltaFloor :: real where [cfg]: "fluxDeltaFloor = 0.006"
definition fluxPulseGain :: real where [cfg]: "fluxPulseGain = 2.6"
definition beatDeltaGain :: real where [cfg]: "beatDeltaGain = 5.4"
definition beatMinIntervalMs :: real where [cfg]: "beatMinIntervalMs = 200"
definition beatMaxIntervalMs :: real where [cfg]: "beatMaxIntervalMs = 1400"
definition beatLevelFloor :: real where [cfg]: "beatLevelFloor = 0.16"
definition beatEnergyFloor :: real where [cfg]: "beatEnergyFloor = 0.18"
definition beatSilenceResetMs :: real where [cfg]: "beatSilenceResetMs = 2600"
definition bpmSmoothing :: real where [cfg]: "bpmSmoothing = 0.28"
definition bpmWindow :: nat where [cfg]: "bpmWindow = 12"

subsection \<open>Helpers (lines 892-898) and the functions of Math the code calls\<close>

definition lerp :: "real \<Rightarrow> real \<Rightarrow> real \<Rightarrow> real" where
  "lerp a b t = a + (b - a) * t"

definition clamp :: "real \<Rightarrow> real \<Rightarrow> real \<Rightarrow> real" where
  "clamp v lo hi = max lo (min hi v)"

text \<open>
  \<^verbatim>\<open>Math.pow\<close> is called with a base that is never negative and a positive exponent; there
  it is the real power, with \<^verbatim>\<open>Math.pow(0, y) = 0\<close>. \<^verbatim>\<open>Math.round\<close> rounds half up.
\<close>

definition Math_pow :: "real \<Rightarrow> real \<Rightarrow> real" where
  "Math_pow x y = x powr y"

definition Math_round :: "real \<Rightarrow> real" where
  "Math_round x = of_int \<lfloor>x + 1 / 2\<rfloor>"

subsection \<open>The state of an AudioAnalyser (constructor, lines 82-102)\<close>

record band_energy =
  low :: real
  mid :: real
  high :: real

text \<open>
  \<^verbatim>\<open>analyser\<close> says whether \<^verbatim>\<open>init\<close> has created the analyser node; \<^verbatim>\<open>prevSpectrum\<close> is
  \<^verbatim>\<open>null\<close> until the first flux computation. The buffers \<^verbatim>\<open>freqData\<close> and \<^verbatim>\<open>timeData\<close> are
  overwritten by the analyser node at the start of every tick: their contents are the
  input of the tick, see \<open>frame\<close> below.
\<close>

record AudioAnalyser =
  analyser :: bool
  rms :: real
  rmsAverage :: real
  level :: real
  levelAverage :: real
  beatPulse :: real
  brightness :: real
  lastBeatTime :: real
  beatIntervals :: "real list"
  bpm :: real
  bandEnergy :: band_energy
  prevSpectrum :: "real list option"
  fluxHistory :: "real list"
  prevFlux :: real
  lastAudioActive :: real
  beatDetected :: bool

definition AudioAnalyser_new :: AudioAnalyser where
  "AudioAnalyser_new =
     \<lparr>analyser = False, rms = 0, rmsAverage = 0.001, level = 0, levelAverage = 0,
      beatPulse = 0, brightness = 0, lastBeatTime = 0, beatIntervals = [], bpm = 0,
      bandEnergy = \<lparr>low = 0, mid = 0, high = 0\<rparr>, prevSpectrum = None, fluxHistory = [],
      prevFlux = 0, lastAudioActive = 0, beatDetected = False\<rparr>"

text \<open>
  \<^verbatim>\<open>init\<close> (lines 104-115) creates the analyser node with \<^verbatim>\<open>fftSize = CONFIG.fftSize\<close> and
  allocates \<^verbatim>\<open>freqData\<close> with \<^verbatim>\<open>frequencyBinCount\<close> bytes (half the FFT size, by the Web
  Audio API) and \<^verbatim>\<open>timeData\<close> with \<^verbatim>\<open>fftSize\<close> floats.
\<close>

definition frequencyBinCount :: nat where
  "frequencyBinCount = fftSize div 2"

definition init :: "AudioAnalyser \<Rightarrow> AudioAnalyser" where
  "init s = s\<lparr>analyser := True\<rparr>"

text \<open>
  One tick reads the two buffers, as \<^verbatim>\<open>getByteFrequencyData\<close> and
  \<^verbatim>\<open>getFloatTimeDomainData\<close> have filled them, and the clock \<^verbatim>\<open>performance.now()\<close> once.
  A frame fits the buffers of \<^verbatim>\<open>init\<close> when it has their lengths.
\<close>

record frame =
  freqData :: "8 word list"
  timeData :: "real list"
  frameNow :: real

definition frame_ok :: "frame \<Rightarrow> bool" where
  "frame_ok f \<longleftrightarrow> length (freqData f) = frequencyBinCount \<and> length (timeData f) = fftSize"

record snapshot =
  snap_rms :: real
  snap_rmsAverage :: real
  snap_level :: real
  snap_beatPulse :: real
  snap_brightness :: real
  snap_bpm :: real
  snap_beatDetected :: bool
  snap_bandEnergy :: band_energy
  snap_frequencies :: "real list"

subsection \<open>\_emptyState (lines 326-338)\<close>

definition emptyState :: snapshot where
  "emptyState =
     \<lparr>snap_rms = 0, snap_rmsAverage = 0, snap_level = 0, snap_beatPulse = 0,
      snap_brightness = 0, snap_bpm = 0, snap_beatDetected = False,
      snap_bandEnergy = \<lparr>low = 0, mid = 0, high = 0\<rparr>,
      snap_frequencies = replicate barCount 0\<rparr>"

subsection \<open>\_updateBands and \_updateBrightness (lines 197-236)\<close>

text \<open>
  The loop of lines 205-214: one pass over the indices, three running sums. \<open>bandStep\<close> is
  the body of the loop at index \<open>i\<close>.
\<close>

definition bandStep ::
  "8 word list \<Rightarrow> nat \<Rightarrow> nat \<Rightarrow> nat \<Rightarrow> real \<times> real \<times> real \<Rightarrow> real \<times> real \<times> real" where
  "bandStep freq lowEnd midEnd i acc =
     (case acc of (lowSum, midSum, highSum) \<Rightarrow>
        let v = real (unat (freq ! i)) / 255
        in if i < lowEnd then (lowSum + v, midSum, highSum)
           else if i < midEnd then (lowSum, midSum + v, highSum)
           else (lowSum, midSum, highSum + v))"

definition bandSums :: "8 word list \<Rightarrow> nat \<Rightarrow> nat \<Rightarrow> real \<times> real \<times> real" where
  "bandSums freq lowEnd midEnd = fold (bandStep freq lowEnd midEnd) [0..<length freq] (0, 0, 0)"

definition convert :: "real \<Rightarrow> real \<Rightarrow> real" where
  "convert sm cnt =
     (let avg = sm / cnt
      in Math_pow (clamp (avg * bandGain) 0 1) bandExponent)"

text \<open>
  \<open>computeBands\<close> is the body of \<^verbatim>\<open>_updateBands\<close> up to the object it assigns to
  \<^verbatim>\<open>this.bandEnergy\<close>; \<open>computeBrightness\<close> is the value \<^verbatim>\<open>_updateBrightness\<close> assigns.
\<close>

definition computeBands :: "8 word list \<Rightarrow> band_energy" where
  "computeBands freq =
     (let len = length freq;
          lowEnd = nat \<lfloor>real len * 0.12\<rfloor>;
          midEnd = nat \<lfloor>real len * 0.45\<rfloor>;
          (lowSum, midSum, highSum) = bandSums freq lowEnd midEnd;
          lowCount = max (real lowEnd) 1;
          midCount = max (real midEnd - real lowEnd) 1;
          highCount = max (real len - real midEnd) 1
      in \<lparr>low = convert lowSum lowCount,
          mid = convert midSum midCount,
          high = convert highSum highCount\<rparr>)"

definition updateBands :: "8 word list \<Rightarrow> AudioAnalyser \<Rightarrow> AudioAnalyser" where
  "updateBands freq s = s\<lparr>bandEnergy := computeBands freq\<rparr>"

definition computeBrightness :: "band_energy \<Rightarrow> real" where
  "computeBrightness b =
     (let total = low b + mid b + high b + 1 / 1000000
      in clamp ((mid b * 0.35 + high b * 0.65) / total) 0 1)"

definition updateBrightness :: "AudioAnalyser \<Rightarrow> AudioAnalyser" where
  "updateBrightness s = s\<lparr>brightness := computeBrightness (bandEnergy s)\<rparr>"

subsection \<open>\_calculateFlux (lines 238-257)\<close>

text \<open>
  The loop of lines 248-255 reads \<^verbatim>\<open>prevSpectrum[i]\<close> and then overwrites it. A typed array
  ignores a write past its end, as \<^term>\<open>list_update\<close> does; a read past its end gives
  \<^verbatim>\<open>undefined\<close>, the difference is then NaN and \<^verbatim>\<open>diff > 0\<close> is false.
\<close>

definition fluxStep :: "8 word list \<Rightarrow> nat \<Rightarrow> real \<times> real list \<Rightarrow> real \<times> real list" where
  "fluxStep freq i acc =
     (case acc of (flux, p) \<Rightarrow>
        let magnitude = Math_pow (real (unat (freq ! i)) / 255) fluxExponent
        in (if i < length p \<and> magnitude - p ! i > 0 then flux + (magnitude - p ! i) else flux,
            p[i := magnitude]))"

definition fluxLoop :: "8 word list \<Rightarrow> real list \<Rightarrow> real \<times> real list" where
  "fluxLoop freq prev = fold (fluxStep freq) [0..<length freq] (0, prev)"

text \<open>
  \<open>spectralFlux\<close> is the value \<^verbatim>\<open>_calculateFlux\<close> returns together with the contents of
  \<^verbatim>\<open>prevSpectrum\<close> it leaves behind, from the bins and the previous contents
  (\<^term>\<open>None\<close> for \<^verbatim>\<open>null\<close>).
\<close>

definition spectralFlux :: "8 word list \<Rightarrow> real list option \<Rightarrow> real \<times> real list" where
  "spectralFlux freq prev =
     (case prev of
        None \<Rightarrow> (0, map (\<lambda>b. Math_pow (real (unat b) / 255) fluxExponent) freq)
      | Some p0 \<Rightarrow>
          (let (flux, p) = fluxLoop freq p0
           in (flux / real (length freq), p)))"

definition calculateFlux :: "8 word list \<Rightarrow> AudioAnalyser \<Rightarrow> real \<times> AudioAnalyser" where
  "calculateFlux freq s =
     (let (flux, p) = spectralFlux freq (prevSpectrum s)
      in (flux, s\<lparr>prevSpectrum := Some p\<rparr>))"

subsection \<open>\_updateFluxHistory (lines 259-285)\<close>

text \<open>
  The threshold is computed from the history as it is on entry (lines 260-276,
  \<open>fluxThreshold\<close>); the new flux is pushed afterwards (lines 278-281). \<^term>\<open>None\<close> is
  the threshold \<^verbatim>\<open>Infinity\<close>. \<open>pushCapped\<close> is the idiom of lines 278-281 and 300-303:
  \<^verbatim>\<open>push\<close>, then \<^verbatim>\<open>shift\<close> when the array has grown past its capacity.
\<close>

definition fluxThreshold :: "real list \<Rightarrow> real option" where
  "fluxThreshold history =
     (let windowSize = min (length history) fluxWindow
      in if windowSize \<ge> fluxMinWindow then
           let window = drop (length history - windowSize) history;
               mean = sum_list window / real windowSize;
               deviation = sum_list (map (\<lambda>h. \<bar>h - mean\<bar>) window) / real windowSize
           in Some (mean + deviation * fluxSensitivity)
         else None)"

definition pushCapped :: "nat \<Rightarrow> 'a \<Rightarrow> 'a list \<Rightarrow> 'a list" where
  "pushCapped cap x xs = (let pushed = xs @ [x] in if length pushed > cap then tl pushed else pushed)"

definition updateFluxHistory ::
  "real \<Rightarrow> AudioAnalyser \<Rightarrow> (real option \<times> real) \<times> AudioAnalyser" where
  "updateFluxHistory flux s =
     (let history = fluxHistory s;
          threshold = fluxThreshold history;
          history' = pushCapped fluxHistorySize flux history;
          delta = (case threshold of None \<Rightarrow> 0 | Some t \<Rightarrow> flux - t)
      in ((threshold, delta), s\<lparr>fluxHistory := history'\<rparr>))"

subsection \<open>\_detectBeat (lines 287-324)\<close>

definition detectBeat ::
  "real \<Rightarrow> real \<Rightarrow> real option \<Rightarrow> real \<Rightarrow> band_energy \<Rightarrow> real \<Rightarrow> AudioAnalyser
     \<Rightarrow> bool \<times> AudioAnalyser" where
  "detectBeat levelSample flux threshold delta be now s =
     (let fluxActive = (threshold \<noteq> None \<and> delta > fluxDeltaFloor);
          rising = (flux > prevFlux s);
          energyScore = low be * 0.5 + mid be * 0.35 + high be * 0.25;
          levelOk = (levelSample > beatLevelFloor);
          energyOk = (energyScore > beatEnergyFloor);
          interval = now - lastBeatTime s;
          detected = (fluxActive \<and> rising \<and> (levelOk \<or> energyOk)
                      \<and> (lastBeatTime s = 0 \<or> interval > beatMinIntervalMs));
          s1 = (if detected then
                  (if lastBeatTime s > 0 \<and> interval < beatMaxIntervalMs then
                     let intervals = pushCapped bpmWindow interval (beatIntervals s);
                         avg = sum_list intervals / real (length intervals);
                         targetBpm = clamp (60000 / max avg 1) 50 200
                     in s\<lparr>beatIntervals := intervals,
                          bpm := (if bpm s = 0 then Math_round targetBpm
                                  else Math_round (lerp (bpm s) targetBpm bpmSmoothing))\<rparr>
                   else s)\<lparr>lastBeatTime := now\<rparr>
                else s);
          s2 = (if \<not> detected then
                  let sinceBeat = now - lastBeatTime s1;
                      silence = (now - lastAudioActive s1 > beatSilenceResetMs)
                  in if (lastBeatTime s1 > 0 \<and> sinceBeat > beatSilenceResetMs) \<or> silence
                     then s1\<lparr>beatIntervals := [], lastBeatTime := 0, bpm := 0\<rparr>
                     else s1
                else s1)
      in (detected, s2\<lparr>prevFlux := flux\<rparr>))"

subsection \<open>update (lines 117-195)\<close>

text \<open>
  Lines 122-162, everything \<^verbatim>\<open>update\<close> does before it calls \<^verbatim>\<open>_detectBeat\<close>: the state
  at that point and the locals the call and the rest of the tick use.
\<close>

record pre_beat =
  pb_state :: AudioAnalyser
  pb_normalized :: real
  pb_flux :: real
  pb_threshold :: "real option"
  pb_delta :: real

definition nextRms :: "real list \<Rightarrow> real" where
  "nextRms td =
     (let sumSquares = sum_list (map (\<lambda>sample. sample * sample) td)
      in sqrt (sumSquares / real (length td)))"

definition normalizedLevel :: "real list \<Rightarrow> real" where
  "normalizedLevel td = clamp (Math_pow (nextRms td * levelScale) levelExponent) 0 1"

definition targetBeatPulse :: "real \<Rightarrow> real \<Rightarrow> real \<Rightarrow> band_energy \<Rightarrow> real" where
  "targetBeatPulse normalized levelAvg fluxDelta be =
     (let beatDelta = max 0 (normalized - levelAvg * 1.01);
          energyContribution = normalized * (low be * 0.24 + mid be * 0.18 + high be * 0.12)
      in clamp (beatDelta * beatDeltaGain + max 0 fluxDelta * fluxPulseGain
                + energyContribution) 0 1)"

definition analyse :: "frame \<Rightarrow> AudioAnalyser \<Rightarrow> pre_beat" where
  "analyse f s =
     (let s1 = s\<lparr>rms := lerp (rms s) (nextRms (timeData f)) 0.22,
                 rmsAverage := lerp (rmsAverage s) (nextRms (timeData f)) 0.05\<rparr>;
          s2 = updateBrightness (updateBands (freqData f) s1);
          normalized = normalizedLevel (timeData f);
          s3 = s2\<lparr>levelAverage := lerp (levelAverage s2) normalized 0.06,
                  level := lerp (level s2) normalized 0.4\<rparr>;
          s4 = s3\<lparr>lastAudioActive :=
                    (if normalized > 0.035 then frameNow f else lastAudioActive s3)\<rparr>;
          (flux, s5) = calculateFlux (freqData f) s4;
          ((threshold, fluxDelta), s6) = updateFluxHistory flux s5;
          s7 = s6\<lparr>beatPulse :=
                   lerp (beatPulse s6)
                     (targetBeatPulse normalized (levelAverage s6) fluxDelta (bandEnergy s6)) 0.36\<rparr>
      in \<lparr>pb_state = s7, pb_normalized = normalized, pb_flux = flux,
          pb_threshold = threshold, pb_delta = fluxDelta\<rparr>)"

text \<open>Lines 177-182: every \<^verbatim>\<open>step\<close>-th bin, compressed, for the bars of the display.\<close>

definition frequencies :: "8 word list \<Rightarrow> real list" where
  "frequencies freq =
     (let step = max 1 (length freq div barCount)
      in map (\<lambda>i. Math_pow (real (unat (freq ! (i * step))) / 255) 0.62) [0..<barCount])"

text \<open>
  \<^verbatim>\<open>update\<close> itself; \<open>snapshotOf\<close> is the object it returns (lines 184-194), read from
  the fields at the end of the tick. Without an analyser node it returns the empty state and touches
  nothing (lines 118-120). A frame that does not fit the buffers of \<^verbatim>\<open>init\<close> is no input
  of the program; the model answers \<^term>\<open>None\<close> there, so that no division by a length
  and no indexed read of the tick is ever taken outside its range.
\<close>

definition snapshotOf :: "bool \<Rightarrow> 8 word list \<Rightarrow> AudioAnalyser \<Rightarrow> snapshot" where
  "snapshotOf detected freq s =
     \<lparr>snap_rms = rms s, snap_rmsAverage = rmsAverage s, snap_level = level s,
      snap_beatPulse = beatPulse s, snap_brightness = brightness s, snap_bpm = bpm s,
      snap_beatDetected = detected, snap_bandEnergy = bandEnergy s,
      snap_frequencies = frequencies freq\<rparr>"

definition update :: "frame \<Rightarrow> AudioAnalyser \<Rightarrow> (snapshot \<times> AudioAnalyser) option" where
  "update f s =
     (if \<not> analyser s then Some (emptyState, s)
      else if \<not> frame_ok f then None
      else
        let p = analyse f s;
            (detected, d) =
              detectBeat (pb_normalized p) (pb_flux p) (pb_threshold p) (pb_delta p)
                (bandEnergy (pb_state p)) (frameNow f) (pb_state p);
            s' = d\<lparr>beatPulse := (if detected then min 1 (beatPulse d + 0.34) else beatPulse d),
                   beatDetected := detected\<rparr>
        in Some (snapshotOf detected (freqData f) s', s'))"

text \<open>
  The animation loop (\<^verbatim>\<open>loop\<close>, line 1045) calls \<^verbatim>\<open>update\<close> once per tick. A run over a
  list of frames gives, for every tick, the snapshot returned and the state left behind.
\<close>

fun run_ticks :: "frame list \<Rightarrow> AudioAnalyser \<Rightarrow> (snapshot \<times> AudioAnalyser) list option" where
  "run_ticks [] s = Some []"
| "run_ticks (f # fs) s =
     (case update f s of
        None \<Rightarrow> None
      | Some (out, s') \<Rightarrow>
          (case run_ticks fs s' of
             None \<Rightarrow> None
           | Some tr \<Rightarrow> Some ((out, s') # tr)))"

definition state_after :: "AudioAnalyser \<Rightarrow> (snapshot \<times> AudioAnalyser) list \<Rightarrow> AudioAnalyser" where
  "state_after s tr = last (s # map snd tr)"

subsection \<open>PaletteController (lines 593-631) and COLOR\_THEMES (lines 50-79)\<close>



record PaletteController =
  index :: nat
  lastSwitch :: real
  beatCount :: nat
  lastBeatAt :: real

text \<open>The constructor reads the clock once: \<^verbatim>\<open>lastSwitch = performance.now()\<close>.\<close>

definition PaletteController_new :: "real \<Rightarrow> PaletteController" where
  "PaletteController_new now = \<lparr>index = 0, lastSwitch = now, beatCount = 0, lastBeatAt = 0\<rparr>"






subsection \<open>Auxiliary definitions: one branch of \_detectBeat, and concrete frames and states\<close>

text \<open>
  The definitions below are not functions of the source. \<open>tempoUpdate\<close> names the
  assignments of lines 300-306. The others are concrete inputs and the states the code
  reaches on them; the theorems evaluate the code there.
\<close>

definition tempoUpdate :: "real \<Rightarrow> AudioAnalyser \<Rightarrow> AudioAnalyser" where
  "tempoUpdate interval s =
     (let intervals = pushCapped bpmWindow interval (beatIntervals s);
          avg = sum_list intervals / real (length intervals);
          targetBpm = clamp (60000 / max avg 1) 50 200
      in s\<lparr>beatIntervals := intervals,
           bpm := (if bpm s = 0 then Math_round targetBpm
                   else Math_round (lerp (bpm s) targetBpm bpmSmoothing))\<rparr>)"

text \<open>
  A frame whose bins all hold the byte \<open>c\<close> and whose time-domain window is silent, read
  at clock time \<open>t\<close>.
\<close>

definition constFrame :: "8 word \<Rightarrow> real \<Rightarrow> frame" where
  "constFrame c t = \<lparr>freqData = replicate frequencyBinCount c, timeData = replicate fftSize 0, frameNow = t\<rparr>"

text \<open>
  The state after \<open>n\<close> ticks on all-zero frames from a fresh, initialised analyser
  (lemma \<open>quiet_run\<close>), and the trace of such a run from tick \<open>n\<close> on.
\<close>

definition quietState :: "nat \<Rightarrow> AudioAnalyser" where
  "quietState n =
     \<lparr>analyser = True, rms = 0, rmsAverage = 0.001 * 0.95 ^ n, level = 0, levelAverage = 0,
      beatPulse = 0, brightness = 0, lastBeatTime = 0, beatIntervals = [], bpm = 0,
      bandEnergy = \<lparr>low = 0, mid = 0, high = 0\<rparr>,
      prevSpectrum = (if n = 0 then None else Some (replicate frequencyBinCount 0)),
      fluxHistory = replicate (min n fluxHistorySize) 0,
      prevFlux = 0, lastAudioActive = 0, beatDetected = False\<rparr>"

definition quietTrace :: "nat \<Rightarrow> nat \<Rightarrow> (snapshot \<times> AudioAnalyser) list" where
  "quietTrace n k =
     map (\<lambda>i. (emptyState\<lparr>snap_rmsAverage := 0.001 * 0.95 ^ Suc (n + i)\<rparr>, quietState (Suc (n + i))))
       [0..<k]"

text \<open>
  The states along a run of twelve all-zero frames followed by frames that alternate
  between all bins at 255 and all bins at 0: after the first full frame (a beat at time
  \<open>t\<close>), after the zero frame behind it (\<open>lastBeatTime = r\<close>), after the second full
  frame, and so on.
\<close>

definition beatState :: "real \<Rightarrow> AudioAnalyser" where
  "beatState t =
     \<lparr>analyser = True, rms = 0, rmsAverage = 0.001 * 0.95 ^ 13, level = 0, levelAverage = 0,
      beatPulse = 0.7, brightness = 1000000 / 3000001, lastBeatTime = t, beatIntervals = [],
      bpm = 0, bandEnergy = \<lparr>low = 1, mid = 1, high = 1\<rparr>,
      prevSpectrum = Some (replicate frequencyBinCount 1),
      fluxHistory = replicate 12 0 @ [1],
      prevFlux = 1, lastAudioActive = 0, beatDetected = True\<rparr>"

definition restState :: "real \<Rightarrow> AudioAnalyser" where
  "restState r =
     \<lparr>analyser = True, rms = 0, rmsAverage = 0.001 * 0.95 ^ 14, level = 0, levelAverage = 0,
      beatPulse = 0.448, brightness = 0, lastBeatTime = r, beatIntervals = [],
      bpm = 0, bandEnergy = \<lparr>low = 0, mid = 0, high = 0\<rparr>,
      prevSpectrum = Some (replicate frequencyBinCount 0),
      fluxHistory = replicate 12 0 @ [1, 0],
      prevFlux = 0, lastAudioActive = 0, beatDetected = False\<rparr>"

definition secondBeatState :: "real \<Rightarrow> real list \<Rightarrow> real \<Rightarrow> AudioAnalyser" where
  "secondBeatState t iv b =
     \<lparr>analyser = True, rms = 0, rmsAverage = 0.001 * 0.95 ^ 15, level = 0, levelAverage = 0,
      beatPulse = 0.98672, brightness = 1000000 / 3000001, lastBeatTime = t, beatIntervals = iv,
      bpm = b, bandEnergy = \<lparr>low = 1, mid = 1, high = 1\<rparr>,
      prevSpectrum = Some (replicate frequencyBinCount 1),
      fluxHistory = replicate 12 0 @ [1, 0, 1],
      prevFlux = 1, lastAudioActive = 0, beatDetected = True\<rparr>"

definition restState2 :: "real \<Rightarrow> real list \<Rightarrow> real \<Rightarrow> AudioAnalyser" where
  "restState2 r iv b =
     \<lparr>analyser = True, rms = 0, rmsAverage = 0.001 * 0.95 ^ 16, level = 0, levelAverage = 0,
      beatPulse = 0.6315008, brightness = 0, lastBeatTime = r, beatIntervals = iv,
      bpm = b, bandEnergy = \<lparr>low = 0, mid = 0, high = 0\<rparr>,
      prevSpectrum = Some (replicate frequencyBinCount 0),
      fluxHistory = replicate 12 0 @ [1, 0, 1, 0],
      prevFlux = 0, lastAudioActive = 0, beatDetected = False\<rparr>"

definition thirdBeatState :: "real \<Rightarrow> real list \<Rightarrow> real \<Rightarrow> AudioAnalyser" where
  "thirdBeatState t iv b =
     \<lparr>analyser = True, rms = 0, rmsAverage = 0.001 * 0.95 ^ 17, level = 0, levelAverage = 0,
      beatPulse = 1, brightness = 1000000 / 3000001, lastBeatTime = t, beatIntervals = iv,
      bpm = b, bandEnergy = \<lparr>low = 1, mid = 1, high = 1\<rparr>,
      prevSpectrum = Some (replicate frequencyBinCount 1),
      fluxHistory = replicate 12 0 @ [1, 0, 1, 0, 1],
      prevFlux = 1, lastAudioActive = 0, beatDetected = True\<rparr>"

text \<open>
  Two runs. \<open>tempoFrames\<close>: beats at 200 ms, 700 ms and 2200 ms, all before the silence
  threshold can be reached. \<open>burstFrames\<close>: the same spectra 16 ms apart, starting at
  3000 ms, so that the time-domain silence has lasted longer than \<open>beatSilenceResetMs\<close>.
\<close>

definition tempoFrames :: "frame list" where
  "tempoFrames =
     map (constFrame 0) [10, 20, 30, 40, 50, 60, 70, 80, 90, 100, 110, 120]
     @ [constFrame 255 200, constFrame 0 300, constFrame 255 700,
        constFrame 0 800, constFrame 255 2200]"

definition tempoTrace :: "(snapshot \<times> AudioAnalyser) list" where
  "tempoTrace =
     quietTrace 0 12
     @ [(snapshotOf True (replicate frequencyBinCount 255) (beatState 200), beatState 200),
        (snapshotOf False (replicate frequencyBinCount 0) (restState 200), restState 200),
        (snapshotOf True (replicate frequencyBinCount 255) (secondBeatState 700 [500] 120),
         secondBeatState 700 [500] 120),
        (snapshotOf False (replicate frequencyBinCount 0) (restState2 700 [500] 120),
         restState2 700 [500] 120),
        (snapshotOf True (replicate frequencyBinCount 255) (thirdBeatState 2200 [500] 120),
         thirdBeatState 2200 [500] 120)]"

definition burstFrames :: "frame list" where
  "burstFrames =
     map (constFrame 0)
       [3000, 3016, 3032, 3048, 3064, 3080, 3096, 3112, 3128, 3144, 3160, 3176]
     @ [constFrame 255 3192, constFrame 0 3208, constFrame 255 3224]"

definition burstTrace :: "(snapshot \<times> AudioAnalyser) list" where
  "burstTrace =
     quietTrace 0 12
     @ [(snapshotOf True (replicate frequencyBinCount 255) (beatState 3192), beatState 3192),
        (snapshotOf False (replicate frequencyBinCount 0) (restState 0), restState 0),
        (snapshotOf True (replicate frequencyBinCount 255) (secondBeatState 3224 [] 0),
         secondBeatState 3224 [] 0)]"

text \<open>
  The part of the state the range invariant needs: the smoothed values that feed back into
  the next tick and the two bounded buffers.
\<close>

definition state_ok :: "AudioAnalyser \<Rightarrow> bool" where
  "state_ok s \<longleftrightarrow>
     0 \<le> level s \<and> level s \<le> 1 \<and> 0 \<le> beatPulse s \<and> beatPulse s \<le> 1
     \<and> (bpm s = 0 \<or> (50 \<le> bpm s \<and> bpm s \<le> 200))
     \<and> length (beatIntervals s) \<le> bpmWindow
     \<and> length (fluxHistory s) \<le> fluxHistorySize"

text \<open>An empty interval window goes with an unknown tempo.\<close>

definition tempo_known :: "AudioAnalyser \<Rightarrow> bool" where
  "tempo_known s \<longleftrightarrow> bpm s \<noteq> 0 \<or> beatIntervals s = []"

section \<open>Properties\<close>

subsection \<open>The stages of a tick, written out\<close>

lemma analyse_locals:
  "pb_normalized (analyse f s) = normalizedLevel (timeData f)"
  "pb_flux (analyse f s) = fst (spectralFlux (freqData f) (prevSpectrum s))"
  "pb_threshold (analyse f s) = fluxThreshold (fluxHistory s)"
  "pb_delta (analyse f s) =
     (case fluxThreshold (fluxHistory s) of
        None \<Rightarrow> 0
      | Some t \<Rightarrow> fst (spectralFlux (freqData f) (prevSpectrum s)) - t)"
  by (simp_all add: analyse_def updateFluxHistory_def calculateFlux_def updateBrightness_def
      updateBands_def Let_def split_def split: option.split)

lemma analyse_state:
  "pb_state (analyse f s) =
     s\<lparr>rms := lerp (rms s) (nextRms (timeData f)) 0.22,
       rmsAverage := lerp (rmsAverage s) (nextRms (timeData f)) 0.05,
       bandEnergy := computeBands (freqData f),
       brightness := computeBrightness (computeBands (freqData f)),
       levelAverage := lerp (levelAverage s) (normalizedLevel (timeData f)) 0.06,
       level := lerp (level s) (normalizedLevel (timeData f)) 0.4,
       lastAudioActive :=
         (if normalizedLevel (timeData f) > 0.035 then frameNow f else lastAudioActive s),
       prevSpectrum := Some (snd (spectralFlux (freqData f) (prevSpectrum s))),
       fluxHistory :=
         pushCapped fluxHistorySize (fst (spectralFlux (freqData f) (prevSpectrum s)))
           (fluxHistory s),
       beatPulse :=
         lerp (beatPulse s)
           (targetBeatPulse (normalizedLevel (timeData f))
              (lerp (levelAverage s) (normalizedLevel (timeData f)) 0.06)
              (pb_delta (analyse f s)) (computeBands (freqData f))) 0.36\<rparr>"
  unfolding analyse_locals
  by (simp add: analyse_def updateFluxHistory_def calculateFlux_def updateBrightness_def
      updateBands_def Let_def split_def split: option.split)

lemma detectBeat_fst:
  "fst (detectBeat lv fl th de be now s) \<longleftrightarrow>
     (th \<noteq> None \<and> de > fluxDeltaFloor) \<and> fl > prevFlux s
     \<and> (lv > beatLevelFloor \<or> low be * 0.5 + mid be * 0.35 + high be * 0.25 > beatEnergyFloor)
     \<and> (lastBeatTime s = 0 \<or> now - lastBeatTime s > beatMinIntervalMs)"
  by (simp add: detectBeat_def Let_def)

lemma detectBeat_snd:
  "snd (detectBeat lv fl th de be now s) =
     (if fst (detectBeat lv fl th de be now s) then
        (if lastBeatTime s > 0 \<and> now - lastBeatTime s < beatMaxIntervalMs
         then (tempoUpdate (now - lastBeatTime s) s)\<lparr>lastBeatTime := now, prevFlux := fl\<rparr>
         else s\<lparr>lastBeatTime := now, prevFlux := fl\<rparr>)
      else if (lastBeatTime s > 0 \<and> now - lastBeatTime s > beatSilenceResetMs)
              \<or> now - lastAudioActive s > beatSilenceResetMs
      then s\<lparr>beatIntervals := [], lastBeatTime := 0, bpm := 0, prevFlux := fl\<rparr>
      else s\<lparr>prevFlux := fl\<rparr>)"
proof -
  define D where "D \<longleftrightarrow> (th \<noteq> None \<and> de > fluxDeltaFloor) \<and> fl > prevFlux s
     \<and> (lv > beatLevelFloor \<or> low be * 0.5 + mid be * 0.35 + high be * 0.25 > beatEnergyFloor)
     \<and> (lastBeatTime s = 0 \<or> now - lastBeatTime s > beatMinIntervalMs)"
  define T where "T \<longleftrightarrow> lastBeatTime s > 0 \<and> now - lastBeatTime s < beatMaxIntervalMs"
  define R where "R \<longleftrightarrow> (lastBeatTime s > 0 \<and> now - lastBeatTime s > beatSilenceResetMs)
              \<or> now - lastAudioActive s > beatSilenceResetMs"
  have f: "fst (detectBeat lv fl th de be now s) = D"
    unfolding D_def by (rule detectBeat_fst)
  have g: "snd (detectBeat lv fl th de be now s) =
     (let s1 = (if D then
                  (if T then tempoUpdate (now - lastBeatTime s) s else s)\<lparr>lastBeatTime := now\<rparr>
                else s);
          s2 = (if \<not> D then
                  if (lastBeatTime s1 > 0 \<and> now - lastBeatTime s1 > beatSilenceResetMs)
                      \<or> now - lastAudioActive s1 > beatSilenceResetMs
                  then s1\<lparr>beatIntervals := [], lastBeatTime := 0, bpm := 0\<rparr>
                  else s1
                else s1)
      in s2\<lparr>prevFlux := fl\<rparr>)"
    unfolding detectBeat_def D_def T_def tempoUpdate_def Let_def by (simp only: snd_conv)
  show ?thesis
  proof (cases D)
    case True
    show ?thesis
    proof (cases T)
      case True
      with \<open>D\<close> show ?thesis
        unfolding f g T_def[symmetric] by (simp add: Let_def)
    next
      case False
      with \<open>D\<close> show ?thesis
        unfolding f g T_def[symmetric] by (simp add: Let_def)
    qed
  next
    case False
    show ?thesis
    proof (cases R)
      case True
      with \<open>\<not> D\<close> show ?thesis
        unfolding f g R_def[symmetric] by (simp add: Let_def R_def[symmetric])
    next
      case False
      with \<open>\<not> D\<close> show ?thesis
        unfolding f g R_def[symmetric] by (simp add: Let_def R_def[symmetric])
    qed
  qed
qed

lemma update_uninitialised: "\<not> analyser s \<Longrightarrow> update f s = Some (emptyState, s)"
  by (simp add: update_def)

lemma update_tick:
  assumes "analyser s" and "update f s = Some (out, s')"
  defines "p \<equiv> analyse f s"
  defines "r \<equiv> detectBeat (pb_normalized p) (pb_flux p) (pb_threshold p) (pb_delta p)
                 (bandEnergy (pb_state p)) (frameNow f) (pb_state p)"
  shows "frame_ok f"
    and "s' = (snd r)\<lparr>beatPulse := (if fst r then min 1 (beatPulse (snd r) + 0.34)
                                      else beatPulse (snd r)),
                      beatDetected := fst r\<rparr>"
    and "out = snapshotOf (fst r) (freqData f) s'"
  using assms(1,2) unfolding p_def r_def
  by (auto simp add: update_def Let_def split_def split: if_splits)

lemma update_total: "analyser s \<Longrightarrow> frame_ok f \<Longrightarrow> \<exists>out s'. update f s = Some (out, s')"
  by (simp add: update_def Let_def split_def)

lemma bandSums_replicate_aux:
  fixes c :: "8 word"
  assumes "lowEnd \<le> midEnd"
  shows "n \<le> N \<Longrightarrow>
   fold (bandStep (replicate N c) lowEnd midEnd) [0..<n] (0, 0, 0)
   = (real (min n lowEnd) * (real (unat c) / 255),
      real (min n midEnd - min n lowEnd) * (real (unat c) / 255),
      real (n - min n midEnd) * (real (unat c) / 255))"
proof (induction n)
  case 0
  then show ?case by simp
next
  case (Suc n)
  then have IH: "fold (bandStep (replicate N c) lowEnd midEnd) [0..<n] (0, 0, 0)
   = (real (min n lowEnd) * (real (unat c) / 255),
      real (min n midEnd - min n lowEnd) * (real (unat c) / 255),
      real (n - min n midEnd) * (real (unat c) / 255))" and nN: "n < N" by simp_all
  have "fold (bandStep (replicate N c) lowEnd midEnd) [0..<Suc n] (0, 0, 0)
      = bandStep (replicate N c) lowEnd midEnd n
          (fold (bandStep (replicate N c) lowEnd midEnd) [0..<n] (0, 0, 0))"
    by simp
  also have "\<dots> = (real (min (Suc n) lowEnd) * (real (unat c) / 255),
      real (min (Suc n) midEnd - min (Suc n) lowEnd) * (real (unat c) / 255),
      real (Suc n - min (Suc n) midEnd) * (real (unat c) / 255))"
    unfolding IH using assms nN
    by (auto simp add: bandStep_def Let_def min_def field_simps)
  finally show ?case .
qed

lemma bandSums_replicate:
  "lowEnd \<le> midEnd \<Longrightarrow> bandSums (replicate N c) lowEnd midEnd =
     (real (min N lowEnd) * (real (unat c) / 255),
      real (min N midEnd - min N lowEnd) * (real (unat c) / 255),
      real (N - min N midEnd) * (real (unat c) / 255))"
  unfolding bandSums_def using bandSums_replicate_aux[of lowEnd midEnd N N c] by simp

lemma fluxLoop_replicate_aux:
  "n \<le> N \<Longrightarrow>
   fold (fluxStep (replicate N c)) [0..<n] (0, replicate N q)
   = (real n * max 0 (Math_pow (real (unat c) / 255) fluxExponent - q),
      replicate n (Math_pow (real (unat c) / 255) fluxExponent) @ replicate (N - n) q)"
proof (induction n)
  case 0
  then show ?case by simp
next
  case (Suc n)
  then have IH: "fold (fluxStep (replicate N c)) [0..<n] (0, replicate N q)
   = (real n * max 0 (Math_pow (real (unat c) / 255) fluxExponent - q),
      replicate n (Math_pow (real (unat c) / 255) fluxExponent) @ replicate (N - n) q)"
    and nN: "n < N" by simp_all
  from nN obtain k where k: "N - n = Suc k" "N - Suc n = k"
    by (metis Suc_diff_Suc)
  have "fold (fluxStep (replicate N c)) [0..<Suc n] (0, replicate N q)
      = fluxStep (replicate N c) n (fold (fluxStep (replicate N c)) [0..<n] (0, replicate N q))"
    by simp
  also have "\<dots> = (real (Suc n) * max 0 (Math_pow (real (unat c) / 255) fluxExponent - q),
      replicate (Suc n) (Math_pow (real (unat c) / 255) fluxExponent) @ replicate (N - Suc n) q)"
    unfolding IH using nN
    by (simp add: fluxStep_def Let_def k nth_append list_update_append replicate_app_Cons_same algebra_simps max_def)
  finally show ?case .
qed

lemma fluxLoop_replicate:
  "fluxLoop (replicate N c) (replicate N q)
   = (real N * max 0 (Math_pow (real (unat c) / 255) fluxExponent - q),
      replicate N (Math_pow (real (unat c) / 255) fluxExponent))"
  unfolding fluxLoop_def using fluxLoop_replicate_aux[of N N c q] by simp

lemma frequencies_const:
  "frequencies (replicate frequencyBinCount c) = replicate barCount (Math_pow (real (unat c) / 255) 0.62)"
proof -
  have "map (\<lambda>i. Math_pow (real (unat (replicate 1024 c ! (i * 10))) / 255) 0.62) [0..<96]
      = map (\<lambda>i. Math_pow (real (unat c) / 255) 0.62) [0..<96]"
    by (rule map_cong) simp_all
  then show ?thesis
    by (simp add: frequencies_def frequencyBinCount_def cfg map_replicate_const)
qed

lemma Math_pow_0 [simp]: "Math_pow 0 e = 0" by (simp add: Math_pow_def)

lemma Math_pow_1 [simp]: "Math_pow 1 e = 1" by (simp add: Math_pow_def)

lemma constFrame_sel:
  "freqData (constFrame c t) = replicate frequencyBinCount c"
  "timeData (constFrame c t) = replicate fftSize 0"
  "frameNow (constFrame c t) = t"
  "frame_ok (constFrame c t)"
  by (simp_all add: constFrame_def frame_ok_def)

lemma nextRms_silent: "nextRms (replicate n 0) = 0"
  by (simp add: nextRms_def sum_list_replicate)

lemma normalizedLevel_silent: "normalizedLevel (replicate n 0) = 0"
  by (simp add: normalizedLevel_def nextRms_silent clamp_def Math_pow_def)

lemma computeBands_zero:
  "computeBands (replicate frequencyBinCount 0) = \<lparr>low = 0, mid = 0, high = 0\<rparr>"
  by (simp add: computeBands_def bandSums_replicate convert_def frequencyBinCount_def cfg Let_def
      clamp_def Math_pow_def)

lemma computeBands_full:
  "computeBands (replicate frequencyBinCount 255) = \<lparr>low = 1, mid = 1, high = 1\<rparr>"
  by (simp add: computeBands_def bandSums_replicate convert_def frequencyBinCount_def cfg Let_def
      clamp_def Math_pow_def)

lemma computeBrightness_zero: "computeBrightness \<lparr>low = 0, mid = 0, high = 0\<rparr> = 0"
  by (simp add: computeBrightness_def clamp_def)

lemma computeBrightness_full: "computeBrightness \<lparr>low = 1, mid = 1, high = 1\<rparr> = 1000000 / 3000001"
  by (simp add: computeBrightness_def clamp_def)

lemma spectralFlux_first:
  "spectralFlux (replicate frequencyBinCount c) None =
     (0, replicate frequencyBinCount (Math_pow (real (unat c) / 255) fluxExponent))"
  by (simp add: spectralFlux_def)

lemma spectralFlux_const:
  "spectralFlux (replicate frequencyBinCount c) (Some (replicate frequencyBinCount q)) =
     (max 0 (Math_pow (real (unat c) / 255) fluxExponent - q),
      replicate frequencyBinCount (Math_pow (real (unat c) / 255) fluxExponent))"
  by (simp add: spectralFlux_def fluxLoop_replicate frequencyBinCount_def cfg)

lemma analyse_fields:
  "analyser (pb_state (analyse f s)) = analyser s"
  "lastBeatTime (pb_state (analyse f s)) = lastBeatTime s"
  "beatIntervals (pb_state (analyse f s)) = beatIntervals s"
  "bpm (pb_state (analyse f s)) = bpm s"
  "prevFlux (pb_state (analyse f s)) = prevFlux s"
  "beatDetected (pb_state (analyse f s)) = beatDetected s"
  by (simp_all add: analyse_state)

lemma detectBeat_reset:
  assumes "\<not> fst (detectBeat lv fl th de be now s)"
    and "(lastBeatTime s > 0 \<and> now - lastBeatTime s > beatSilenceResetMs)
         \<or> now - lastAudioActive s > beatSilenceResetMs"
  shows "snd (detectBeat lv fl th de be now s)
         = s\<lparr>beatIntervals := [], lastBeatTime := 0, bpm := 0, prevFlux := fl\<rparr>"
  by (subst detectBeat_snd) (simp only: assms if_True if_False)

lemma detectBeat_no_reset:
  assumes "\<not> fst (detectBeat lv fl th de be now s)"
    and "\<not> ((lastBeatTime s > 0 \<and> now - lastBeatTime s > beatSilenceResetMs)
         \<or> now - lastAudioActive s > beatSilenceResetMs)"
  shows "snd (detectBeat lv fl th de be now s) = s\<lparr>prevFlux := fl\<rparr>"
  by (subst detectBeat_snd) (simp only: assms if_True if_False)

lemma detectBeat_discontinuity:
  assumes "fst (detectBeat lv fl th de be now s)"
    and "\<not> (lastBeatTime s > 0 \<and> now - lastBeatTime s < beatMaxIntervalMs)"
  shows "snd (detectBeat lv fl th de be now s) = s\<lparr>lastBeatTime := now, prevFlux := fl\<rparr>"
  by (subst detectBeat_snd) (simp only: assms if_True if_False)

lemma detectBeat_tempo:
  assumes "fst (detectBeat lv fl th de be now s)"
    and "lastBeatTime s > 0 \<and> now - lastBeatTime s < beatMaxIntervalMs"
  shows "snd (detectBeat lv fl th de be now s) =
         (tempoUpdate (now - lastBeatTime s) s)\<lparr>lastBeatTime := now, prevFlux := fl\<rparr>"
  by (subst detectBeat_snd) (simp only: assms if_True if_False simp_thms)

lemma tempoUpdate_fields:
  "beatPulse (tempoUpdate i s) = beatPulse s"
  "lastAudioActive (tempoUpdate i s) = lastAudioActive s"
  "fluxHistory (tempoUpdate i s) = fluxHistory s"
  "lastBeatTime (tempoUpdate i s) = lastBeatTime s"
  by (simp_all add: tempoUpdate_def Let_def)

text \<open>The tick as one equation: the snapshot and the state \<open>update\<close> returns.\<close>

lemma tick_result:
  assumes "analyser s" and "update f s = Some (out, s')"
  defines "m \<equiv> pb_state (analyse f s)"
  defines "d \<equiv> fst (detectBeat (pb_normalized (analyse f s)) (pb_flux (analyse f s))
                   (pb_threshold (analyse f s)) (pb_delta (analyse f s))
                   (bandEnergy m) (frameNow f) m)"
  shows "snap_beatDetected out = d"
    and "d \<Longrightarrow> lastBeatTime s > 0 \<and> frameNow f - lastBeatTime s < beatMaxIntervalMs \<Longrightarrow>
         s' = (tempoUpdate (frameNow f - lastBeatTime s) m)
                \<lparr>lastBeatTime := frameNow f, prevFlux := pb_flux (analyse f s),
                 beatPulse := min 1 (beatPulse m + 0.34), beatDetected := True\<rparr>"
    and "d \<Longrightarrow> \<not> (lastBeatTime s > 0 \<and> frameNow f - lastBeatTime s < beatMaxIntervalMs) \<Longrightarrow>
         s' = m\<lparr>lastBeatTime := frameNow f, prevFlux := pb_flux (analyse f s),
                beatPulse := min 1 (beatPulse m + 0.34), beatDetected := True\<rparr>"
    and "\<not> d \<Longrightarrow> (lastBeatTime s > 0 \<and> frameNow f - lastBeatTime s > beatSilenceResetMs)
              \<or> frameNow f - lastAudioActive m > beatSilenceResetMs \<Longrightarrow>
         s' = m\<lparr>beatIntervals := [], lastBeatTime := 0, bpm := 0,
                prevFlux := pb_flux (analyse f s), beatDetected := False\<rparr>"
    and "\<not> d \<Longrightarrow> \<not> ((lastBeatTime s > 0 \<and> frameNow f - lastBeatTime s > beatSilenceResetMs)
              \<or> frameNow f - lastAudioActive m > beatSilenceResetMs) \<Longrightarrow>
         s' = m\<lparr>prevFlux := pb_flux (analyse f s), beatDetected := False\<rparr>"
proof -
  define r where "r = detectBeat (pb_normalized (analyse f s)) (pb_flux (analyse f s))
                   (pb_threshold (analyse f s)) (pb_delta (analyse f s))
                   (bandEnergy m) (frameNow f) m"
  note t = update_tick[OF assms(1,2), folded m_def, folded r_def]
  have d: "d = fst r" by (simp add: d_def r_def)
  have lb: "lastBeatTime m = lastBeatTime s" by (simp add: m_def analyse_fields)
  show "snap_beatDetected out = d" by (simp add: t(3) d snapshotOf_def)
  show "s' = (tempoUpdate (frameNow f - lastBeatTime s) m)
                \<lparr>lastBeatTime := frameNow f, prevFlux := pb_flux (analyse f s),
                 beatPulse := min 1 (beatPulse m + 0.34), beatDetected := True\<rparr>"
    if "d" "lastBeatTime s > 0 \<and> frameNow f - lastBeatTime s < beatMaxIntervalMs"
  proof -
    have "snd r = (tempoUpdate (frameNow f - lastBeatTime m) m)
                    \<lparr>lastBeatTime := frameNow f, prevFlux := pb_flux (analyse f s)\<rparr>"
      unfolding r_def by (rule detectBeat_tempo) (use that d lb in \<open>simp_all add: r_def\<close>)
    then show ?thesis using that(1) d by (simp add: t(2) lb tempoUpdate_fields)
  qed
  show "s' = m\<lparr>lastBeatTime := frameNow f, prevFlux := pb_flux (analyse f s),
                beatPulse := min 1 (beatPulse m + 0.34), beatDetected := True\<rparr>"
    if "d" "\<not> (lastBeatTime s > 0 \<and> frameNow f - lastBeatTime s < beatMaxIntervalMs)"
  proof -
    have "snd r = m\<lparr>lastBeatTime := frameNow f, prevFlux := pb_flux (analyse f s)\<rparr>"
      unfolding r_def by (rule detectBeat_discontinuity) (use that d lb in \<open>simp_all add: r_def\<close>)
    then show ?thesis using that(1) d by (simp add: t(2))
  qed
  show "s' = m\<lparr>beatIntervals := [], lastBeatTime := 0, bpm := 0,
                prevFlux := pb_flux (analyse f s), beatDetected := False\<rparr>"
    if "\<not> d" "(lastBeatTime s > 0 \<and> frameNow f - lastBeatTime s > beatSilenceResetMs)
              \<or> frameNow f - lastAudioActive m > beatSilenceResetMs"
  proof -
    have "snd r = m\<lparr>beatIntervals := [], lastBeatTime := 0, bpm := 0,
                    prevFlux := pb_flux (analyse f s)\<rparr>"
      unfolding r_def by (rule detectBeat_reset) (use that d lb in \<open>simp_all add: r_def\<close>)
    then show ?thesis using that(1) d by (simp add: t(2))
  qed
  show "s' = m\<lparr>prevFlux := pb_flux (analyse f s), beatDetected := False\<rparr>"
    if "\<not> d" "\<not> ((lastBeatTime s > 0 \<and> frameNow f - lastBeatTime s > beatSilenceResetMs)
              \<or> frameNow f - lastAudioActive m > beatSilenceResetMs)"
  proof -
    have "snd r = m\<lparr>prevFlux := pb_flux (analyse f s)\<rparr>"
      unfolding r_def by (rule detectBeat_no_reset) (use that d lb in \<open>simp_all add: r_def\<close>)
    then show ?thesis using that(1) d by (simp add: t(2))
  qed
qed

lemma detectBeat_fields:
  "analyser (snd (detectBeat lv fl th de be now s)) = analyser s"
  "rms (snd (detectBeat lv fl th de be now s)) = rms s"
  "rmsAverage (snd (detectBeat lv fl th de be now s)) = rmsAverage s"
  "level (snd (detectBeat lv fl th de be now s)) = level s"
  "levelAverage (snd (detectBeat lv fl th de be now s)) = levelAverage s"
  "beatPulse (snd (detectBeat lv fl th de be now s)) = beatPulse s"
  "brightness (snd (detectBeat lv fl th de be now s)) = brightness s"
  "bandEnergy (snd (detectBeat lv fl th de be now s)) = bandEnergy s"
  "prevSpectrum (snd (detectBeat lv fl th de be now s)) = prevSpectrum s"
  "fluxHistory (snd (detectBeat lv fl th de be now s)) = fluxHistory s"
  "lastAudioActive (snd (detectBeat lv fl th de be now s)) = lastAudioActive s"
  "beatDetected (snd (detectBeat lv fl th de be now s)) = beatDetected s"
  "prevFlux (snd (detectBeat lv fl th de be now s)) = fl"
  by (simp_all add: detectBeat_snd tempoUpdate_def Let_def)

lemma tick_fields:
  assumes "analyser s" and "update f s = Some (out, s')"
  shows "analyser s'"
    and "rms s' = rms (pb_state (analyse f s))"
    and "rmsAverage s' = rmsAverage (pb_state (analyse f s))"
    and "level s' = level (pb_state (analyse f s))"
    and "levelAverage s' = levelAverage (pb_state (analyse f s))"
    and "brightness s' = brightness (pb_state (analyse f s))"
    and "bandEnergy s' = bandEnergy (pb_state (analyse f s))"
    and "prevSpectrum s' = prevSpectrum (pb_state (analyse f s))"
    and "fluxHistory s' = fluxHistory (pb_state (analyse f s))"
    and "lastAudioActive s' = lastAudioActive (pb_state (analyse f s))"
    and "prevFlux s' = pb_flux (analyse f s)"
    and "beatDetected s' = snap_beatDetected out"
    and "beatPulse s' = (if snap_beatDetected out
                         then min 1 (beatPulse (pb_state (analyse f s)) + 0.34)
                         else beatPulse (pb_state (analyse f s)))"
  using assms(1)
  by (simp_all add: update_tick(2,3)[OF assms] detectBeat_fields analyse_fields snapshotOf_def)

text \<open>
  C4. On a tick of a running analyser on which no beat is confirmed, and on which either a
  beat has fired before (\<open>lastBeatTime > 0\<close>) more than \<open>beatSilenceResetMs\<close> ago or the
  last audio activity, as this tick has recorded it, is more than \<open>beatSilenceResetMs\<close> ago,
  the interval window is empty and \<open>lastBeatTime\<close> and \<open>bpm\<close> are 0 afterwards.
\<close>

theorem silence_reset_clears_tempo:
  assumes "analyser s" and "update f s = Some (out, s')"
    and "\<not> snap_beatDetected out"
    and "(lastBeatTime s > 0 \<and> frameNow f - lastBeatTime s > beatSilenceResetMs)
         \<or> frameNow f - lastAudioActive s' > beatSilenceResetMs"
  shows "beatIntervals s' = [] \<and> lastBeatTime s' = 0 \<and> bpm s' = 0"
proof -
  note r = tick_result[OF assms(1,2)]
  have "s' = (pb_state (analyse f s))\<lparr>beatIntervals := [], lastBeatTime := 0, bpm := 0,
                prevFlux := pb_flux (analyse f s), beatDetected := False\<rparr>"
    by (rule r(4)) (use assms(3,4) r(1) tick_fields(10)[OF assms(1,2)] in simp_all)
  then show ?thesis by simp
qed

text \<open>
  C5. A tick of a running analyser whose candidate onset passes the conditions of
  \<open>_detectBeat\<close> on the signal (the flux is above a finite threshold by more than
  \<open>fluxDeltaFloor\<close>, it has risen over \<open>prevFlux\<close>, and the level or the weighted band energy
  is above its floor), at a time at least \<open>beatMaxIntervalMs\<close> after \<open>lastBeatTime\<close>: the beat
  fires, in the snapshot and in the state, and \<open>lastBeatTime\<close> becomes the time of the tick,
  but the interval window and \<open>bpm\<close> stay as they were.
\<close>

theorem tempo_discontinuity_still_fires:
  assumes "analyser s" and "update f s = Some (out, s')"
    and "pb_threshold (analyse f s) \<noteq> None \<and> pb_delta (analyse f s) > fluxDeltaFloor"
    and "pb_flux (analyse f s) > prevFlux s"
    and "pb_normalized (analyse f s) > beatLevelFloor
         \<or> low (bandEnergy (pb_state (analyse f s))) * 0.5
             + mid (bandEnergy (pb_state (analyse f s))) * 0.35
             + high (bandEnergy (pb_state (analyse f s))) * 0.25 > beatEnergyFloor"
    and "frameNow f - lastBeatTime s \<ge> beatMaxIntervalMs"
  shows "snap_beatDetected out \<and> beatDetected s' \<and> lastBeatTime s' = frameNow f
         \<and> beatIntervals s' = beatIntervals s \<and> bpm s' = bpm s"
proof -
  note r = tick_result[OF assms(1,2)]
  from assms(6) have far: "frameNow f - lastBeatTime s > beatMinIntervalMs"
    by (simp add: cfg)
  have d: "fst (detectBeat (pb_normalized (analyse f s)) (pb_flux (analyse f s))
                   (pb_threshold (analyse f s)) (pb_delta (analyse f s))
                   (bandEnergy (pb_state (analyse f s))) (frameNow f) (pb_state (analyse f s)))"
    unfolding detectBeat_fst analyse_fields using assms(3,4,5) far by blast
  have b: "snap_beatDetected out" using r(1) d by simp
  have "s' = (pb_state (analyse f s))\<lparr>lastBeatTime := frameNow f,
                prevFlux := pb_flux (analyse f s),
                beatPulse := min 1 (beatPulse (pb_state (analyse f s)) + 0.34),
                beatDetected := True\<rparr>"
    by (rule r(3)) (use d assms(6) in simp_all)
  then show ?thesis using b by (simp add: analyse_fields)
qed

text \<open>
  C9. On a tick on which the silence reset fires, the state \<open>update\<close> leaves behind is the
  state as it was just before the call of \<open>_detectBeat\<close>, with \<open>beatIntervals\<close>,
  \<open>lastBeatTime\<close> and \<open>bpm\<close> cleared, \<open>prevFlux\<close> set to the flux of this tick and
  \<open>beatDetected\<close> false. So \<open>fluxHistory\<close> (the old history with this flux pushed),
  \<open>prevSpectrum\<close>, \<open>beatPulse\<close>, \<open>level\<close>, \<open>levelAverage\<close>, \<open>rms\<close>, \<open>rmsAverage\<close> and
  \<open>bandEnergy\<close> are the values this tick has computed.
\<close>

theorem silence_reset_frame:
  assumes "analyser s" and "update f s = Some (out, s')"
    and "\<not> snap_beatDetected out"
    and "(lastBeatTime s > 0 \<and> frameNow f - lastBeatTime s > beatSilenceResetMs)
         \<or> frameNow f - lastAudioActive s' > beatSilenceResetMs"
  shows "s' = (pb_state (analyse f s))
                \<lparr>beatIntervals := [], lastBeatTime := 0, bpm := 0,
                 prevFlux := pb_flux (analyse f s), beatDetected := False\<rparr>
         \<and> fluxHistory s' = pushCapped fluxHistorySize (pb_flux (analyse f s)) (fluxHistory s)
         \<and> prevSpectrum s' = Some (snd (spectralFlux (freqData f) (prevSpectrum s)))
         \<and> prevFlux s' = pb_flux (analyse f s)
         \<and> beatPulse s' = lerp (beatPulse s)
              (targetBeatPulse (normalizedLevel (timeData f))
                 (lerp (levelAverage s) (normalizedLevel (timeData f)) 0.06)
                 (pb_delta (analyse f s)) (computeBands (freqData f))) 0.36
         \<and> level s' = lerp (level s) (normalizedLevel (timeData f)) 0.4
         \<and> levelAverage s' = lerp (levelAverage s) (normalizedLevel (timeData f)) 0.06
         \<and> rms s' = lerp (rms s) (nextRms (timeData f)) 0.22
         \<and> rmsAverage s' = lerp (rmsAverage s) (nextRms (timeData f)) 0.05
         \<and> bandEnergy s' = computeBands (freqData f)"
proof -
  note r = tick_result[OF assms(1,2)]
  have eq: "s' = (pb_state (analyse f s))\<lparr>beatIntervals := [], lastBeatTime := 0, bpm := 0,
                prevFlux := pb_flux (analyse f s), beatDetected := False\<rparr>"
    by (rule r(4)) (use assms(3,4) r(1) tick_fields(10)[OF assms(1,2)] in simp_all)
  have "fluxHistory s' = pushCapped fluxHistorySize (pb_flux (analyse f s)) (fluxHistory s)"
    "prevSpectrum s' = Some (snd (spectralFlux (freqData f) (prevSpectrum s)))"
    "prevFlux s' = pb_flux (analyse f s)"
    "beatPulse s' = lerp (beatPulse s)
              (targetBeatPulse (normalizedLevel (timeData f))
                 (lerp (levelAverage s) (normalizedLevel (timeData f)) 0.06)
                 (pb_delta (analyse f s)) (computeBands (freqData f))) 0.36"
    "level s' = lerp (level s) (normalizedLevel (timeData f)) 0.4"
    "levelAverage s' = lerp (levelAverage s) (normalizedLevel (timeData f)) 0.06"
    "rms s' = lerp (rms s) (nextRms (timeData f)) 0.22"
    "rmsAverage s' = lerp (rmsAverage s) (nextRms (timeData f)) 0.05"
    "bandEnergy s' = computeBands (freqData f)"
    using assms(3)
    by (simp_all add: tick_fields[OF assms(1,2)] analyse_state analyse_locals(2))
  with eq show ?thesis by blast
qed

lemma quietState_0: "quietState 0 = init AudioAnalyser_new"
  by (simp add: quietState_def init_def AudioAnalyser_new_def)

lemma fluxThreshold_zeros:
  "fluxThreshold (replicate k 0) = (if k \<ge> fluxMinWindow then Some 0 else None)"
  by (simp add: fluxThreshold_def Let_def cfg sum_list_replicate)

lemma pushCapped_zeros:
  "pushCapped fluxHistorySize 0 (replicate (min n fluxHistorySize) (0::real))
   = replicate (min (Suc n) fluxHistorySize) 0"
proof (cases "n < fluxHistorySize")
  case True
  then show ?thesis
    by (simp add: pushCapped_def Let_def min_def replicate_append_same)
next
  case False
  then have "min n fluxHistorySize = fluxHistorySize" "min (Suc n) fluxHistorySize = fluxHistorySize"
    by simp_all
  then show ?thesis
    by (simp add: pushCapped_def Let_def replicate_append_same cfg)
qed

lemma quiet_tick:
  "update (constFrame 0 t) (quietState n)
   = Some (emptyState\<lparr>snap_rmsAverage := 0.001 * 0.95 ^ Suc n\<rparr>, quietState (Suc n))"
proof -
  have an: "analyser (quietState n)" by (simp add: quietState_def)
  obtain out s' where u: "update (constFrame 0 t) (quietState n) = Some (out, s')"
    using update_total[OF an constFrame_sel(4)] by blast
  have sf: "spectralFlux (freqData (constFrame 0 t)) (prevSpectrum (quietState n))
            = (0, replicate frequencyBinCount 0)"
    by (simp add: quietState_def constFrame_sel spectralFlux_first spectralFlux_const)
  have th: "pb_threshold (analyse (constFrame 0 t) (quietState n))
            = (if min n fluxHistorySize \<ge> fluxMinWindow then Some 0 else None)"
    by (simp add: analyse_locals quietState_def fluxThreshold_zeros)
  have fl: "pb_flux (analyse (constFrame 0 t) (quietState n)) = 0"
    unfolding analyse_locals sf by simp
  have de: "pb_delta (analyse (constFrame 0 t) (quietState n)) = 0"
    unfolding analyse_locals sf
    by (simp add: quietState_def fluxThreshold_zeros split: option.split)
  have m: "pb_state (analyse (constFrame 0 t) (quietState n)) =
           (quietState (Suc n))\<lparr>prevFlux := prevFlux (quietState n)\<rparr>"
    unfolding analyse_state de sf
    by (simp add: quietState_def constFrame_sel nextRms_silent normalizedLevel_silent
        computeBands_zero computeBrightness_zero lerp_def targetBeatPulse_def clamp_def
        pushCapped_zeros)
  have nd: "\<not> snap_beatDetected out"
    unfolding tick_result(1)[OF an u] detectBeat_fst
    by (simp add: de cfg)
  have s': "s' = quietState (Suc n)"
  proof (cases "(lastBeatTime (quietState n) > 0
                  \<and> frameNow (constFrame 0 t) - lastBeatTime (quietState n) > beatSilenceResetMs)
              \<or> frameNow (constFrame 0 t)
                   - lastAudioActive (pb_state (analyse (constFrame 0 t) (quietState n)))
                 > beatSilenceResetMs")
    case True
    have "s' = (pb_state (analyse (constFrame 0 t) (quietState n)))
                 \<lparr>beatIntervals := [], lastBeatTime := 0, bpm := 0,
                  prevFlux := pb_flux (analyse (constFrame 0 t) (quietState n)),
                  beatDetected := False\<rparr>"
      by (rule tick_result(4)[OF an u]) (use nd True tick_result(1)[OF an u] in simp_all)
    then show ?thesis
      unfolding m fl by (simp add: quietState_def)
  next
    case False
    have "s' = (pb_state (analyse (constFrame 0 t) (quietState n)))
                 \<lparr>prevFlux := pb_flux (analyse (constFrame 0 t) (quietState n)),
                  beatDetected := False\<rparr>"
      by (rule tick_result(5)[OF an u]) (use nd False tick_result(1)[OF an u] in simp_all)
    then show ?thesis
      unfolding m fl by (simp add: quietState_def)
  qed
  have "out = emptyState\<lparr>snap_rmsAverage := 0.001 * 0.95 ^ Suc n\<rparr>"
    unfolding update_tick(3)[OF an u] s'
    using nd tick_result(1)[OF an u]
    by (simp add: quietState_def emptyState_def constFrame_sel frequencies_const snapshotOf_def cfg)
  with u s' show ?thesis by simp
qed

lemma run_ticks_append:
  "run_ticks (fs @ gs) s =
     (case run_ticks fs s of
        None \<Rightarrow> None
      | Some tr \<Rightarrow>
          (case run_ticks gs (state_after s tr) of
             None \<Rightarrow> None
           | Some tr' \<Rightarrow> Some (tr @ tr')))"
proof (induction fs arbitrary: s)
  case Nil
  then show ?case by (simp add: state_after_def split: option.split)
next
  case (Cons f fs)
  show ?case
  proof (cases "update f s")
    case None
    then show ?thesis by simp
  next
    case (Some a)
    obtain out s' where a: "a = (out, s')" by (cases a)
    show ?thesis
      using Some a Cons.IH[of s']
      by (simp add: state_after_def split: option.split)
  qed
qed

lemma quiet_run:
  "run_ticks (map (constFrame 0) ts) (quietState n) = Some (quietTrace n (length ts))"
proof (induction ts arbitrary: n)
  case Nil
  then show ?case by (simp add: quietTrace_def)
next
  case (Cons t ts)
  have "quietTrace n (Suc (length ts)) =
        (emptyState\<lparr>snap_rmsAverage := 0.001 * 0.95 ^ Suc n\<rparr>, quietState (Suc n))
          # quietTrace (Suc n) (length ts)"
    unfolding quietTrace_def
    by (simp add: upt_conv_Cons map_Suc_upt[symmetric] del: upt_Suc)
  then show ?case
    by (simp add: quiet_tick Cons.IH)
qed

lemma tick_eval:
  assumes an: "analyser s" and ok: "frame_ok f"
    and m: "pb_state (analyse f s) = m"
    and fl: "pb_flux (analyse f s) = fl"
    and d: "d \<longleftrightarrow>
              (pb_threshold (analyse f s) \<noteq> None \<and> pb_delta (analyse f s) > fluxDeltaFloor)
              \<and> fl > prevFlux s
              \<and> (pb_normalized (analyse f s) > beatLevelFloor
                   \<or> low (bandEnergy m) * 0.5 + mid (bandEnergy m) * 0.35
                       + high (bandEnergy m) * 0.25 > beatEnergyFloor)
              \<and> (lastBeatTime s = 0 \<or> frameNow f - lastBeatTime s > beatMinIntervalMs)"
    and s': "s' =
       (if d then
          (if lastBeatTime s > 0 \<and> frameNow f - lastBeatTime s < beatMaxIntervalMs
           then tempoUpdate (frameNow f - lastBeatTime s) m else m)
            \<lparr>lastBeatTime := frameNow f, prevFlux := fl,
             beatPulse := min 1 (beatPulse m + 0.34), beatDetected := True\<rparr>
        else
          (if (lastBeatTime s > 0 \<and> frameNow f - lastBeatTime s > beatSilenceResetMs)
              \<or> frameNow f - lastAudioActive m > beatSilenceResetMs
           then m\<lparr>beatIntervals := [], lastBeatTime := 0, bpm := 0\<rparr> else m)
            \<lparr>prevFlux := fl, beatDetected := False\<rparr>)"
  shows "update f s = Some (snapshotOf d (freqData f) s', s')"
proof -
  obtain out s2 where u: "update f s = Some (out, s2)"
    using update_total[OF an ok] by blast
  note r = tick_result[OF an u, unfolded m fl]
  have lb: "lastBeatTime m = lastBeatTime s" "prevFlux m = prevFlux s"
    using m by (auto simp add: analyse_fields)
  have dd: "snap_beatDetected out = d"
    unfolding r(1) detectBeat_fst d lb by simp
  have "s2 = s'"
  proof (cases d)
    case True
    show ?thesis
    proof (cases "lastBeatTime s > 0 \<and> frameNow f - lastBeatTime s < beatMaxIntervalMs")
      case T: True
      have dr: "fst (detectBeat (pb_normalized (analyse f s)) fl
               (pb_threshold (analyse f s)) (pb_delta (analyse f s))
               (bandEnergy m) (frameNow f) m) = d"
        using dd r(1) by simp
      show ?thesis
        unfolding s' r(2)[OF _ T, unfolded dr, OF True]
        by (simp only: True T if_True if_False simp_thms tempoUpdate_fields)
    next
      case F: False
      have dr: "fst (detectBeat (pb_normalized (analyse f s)) fl
               (pb_threshold (analyse f s)) (pb_delta (analyse f s))
               (bandEnergy m) (frameNow f) m) = d"
        using dd r(1) by simp
      show ?thesis
        unfolding s' r(3)[OF _ F, unfolded dr, OF True]
        by (simp only: True F if_True if_False simp_thms tempoUpdate_fields)
    qed
  next
    case False
    show ?thesis
    proof (cases "(lastBeatTime s > 0 \<and> frameNow f - lastBeatTime s > beatSilenceResetMs)
              \<or> frameNow f - lastAudioActive m > beatSilenceResetMs")
      case T: True
      have dr: "fst (detectBeat (pb_normalized (analyse f s)) fl
               (pb_threshold (analyse f s)) (pb_delta (analyse f s))
               (bandEnergy m) (frameNow f) m) = d"
        using dd r(1) by simp
      show ?thesis
        unfolding s' r(4)[OF _ T, unfolded dr, OF False]
        by (simp only: False T if_True if_False simp_thms tempoUpdate_fields)
    next
      case F: False
      have dr: "fst (detectBeat (pb_normalized (analyse f s)) fl
               (pb_threshold (analyse f s)) (pb_delta (analyse f s))
               (bandEnergy m) (frameNow f) m) = d"
        using dd r(1) by simp
      show ?thesis
        unfolding s' r(5)[OF _ F, unfolded dr, OF False]
        by (simp only: False F if_True if_False simp_thms tempoUpdate_fields)
    qed
  qed
  moreover have "out = snapshotOf d (freqData f) s2"
    using update_tick(3)[OF an u] dd r(1) by (simp add: m snapshotOf_def)
  ultimately show ?thesis using u by simp
qed

lemma fluxThreshold_after_beat: "fluxThreshold (replicate 12 0 @ [1]) = Some (263 / 845)"
  by (simp add: fluxThreshold_def Let_def cfg sum_list_replicate)

lemma fluxThreshold_after_rest: "fluxThreshold (replicate 12 0 @ [1, 0]) = Some (569 / 1960)"
  by (simp add: fluxThreshold_def Let_def cfg sum_list_replicate)

lemmas frame_eval = constFrame_sel spectralFlux_const spectralFlux_first nextRms_silent
  normalizedLevel_silent computeBands_full computeBands_zero computeBrightness_full
  computeBrightness_zero

lemmas num_eval = lerp_def targetBeatPulse_def clamp_def cfg pushCapped_def power_divide

lemma first_beat_tick:
  "update (constFrame 255 t) (quietState 12) =
     Some (snapshotOf True (replicate frequencyBinCount 255) (beatState t), beatState t)"
proof -
  let ?f = "constFrame 255 t" and ?s = "quietState 12"
  have an: "analyser ?s" by (simp add: quietState_def)
  have th: "pb_threshold (analyse ?f ?s) = Some 0"
    by (simp add: analyse_locals quietState_def fluxThreshold_zeros cfg)
  have fl: "pb_flux (analyse ?f ?s) = 1"
    by (simp add: analyse_locals quietState_def frame_eval)
  have de: "pb_delta (analyse ?f ?s) = 1"
    using th fl by (simp add: analyse_locals)
  have no: "pb_normalized (analyse ?f ?s) = 0"
    by (simp add: analyse_locals frame_eval)
  have m: "pb_state (analyse ?f ?s) =
           (beatState 0)\<lparr>beatPulse := 0.36, prevFlux := 0, beatDetected := False\<rparr>"
    unfolding analyse_state de
    by (simp add: quietState_def beatState_def frame_eval) (simp add: num_eval)
  show ?thesis
    using tick_eval[OF an constFrame_sel(4) m fl, of True "beatState t"] th de no
    by (simp add: quietState_def beatState_def constFrame_sel cfg)
qed

lemma rest_tick:
  assumes "0 < t"
  shows "update (constFrame 0 t') (beatState t) =
     Some (snapshotOf False (replicate frequencyBinCount 0)
             (restState (if t' - t > beatSilenceResetMs \<or> t' > beatSilenceResetMs then 0 else t)),
           restState (if t' - t > beatSilenceResetMs \<or> t' > beatSilenceResetMs then 0 else t))"
proof -
  let ?f = "constFrame 0 t'" and ?s = "beatState t"
  have an: "analyser ?s" by (simp add: beatState_def)
  have th: "pb_threshold (analyse ?f ?s) = Some (263 / 845)"
    by (simp add: analyse_locals beatState_def fluxThreshold_after_beat)
  have fl: "pb_flux (analyse ?f ?s) = 0"
    by (simp add: analyse_locals beatState_def frame_eval)
  have de: "pb_delta (analyse ?f ?s) = - (263 / 845)"
    using th fl by (simp add: analyse_locals)
  have no: "pb_normalized (analyse ?f ?s) = 0"
    by (simp add: analyse_locals frame_eval)
  have m: "pb_state (analyse ?f ?s) = (restState t)\<lparr>prevFlux := 1, beatDetected := True\<rparr>"
    unfolding analyse_state de
    by (simp add: restState_def beatState_def frame_eval) (simp add: num_eval)
  show ?thesis
    using tick_eval[OF an constFrame_sel(4) m fl, of False
        "restState (if t' - t > beatSilenceResetMs \<or> t' > beatSilenceResetMs then 0 else t)"]
      th de no assms
    by (simp add: restState_def beatState_def constFrame_sel cfg)
qed

lemma second_beat_tick:
  assumes "r = 0 \<or> 200 < t - r" and "0 \<le> r"
  shows "update (constFrame 255 t) (restState r) =
     Some (snapshotOf True (replicate frequencyBinCount 255)
             (if 0 < r \<and> t - r < 1400
              then secondBeatState t [t - r] (Math_round (clamp (60000 / (t - r)) 50 200))
              else secondBeatState t [] 0),
           (if 0 < r \<and> t - r < 1400
              then secondBeatState t [t - r] (Math_round (clamp (60000 / (t - r)) 50 200))
              else secondBeatState t [] 0))"
proof -
  let ?f = "constFrame 255 t" and ?s = "restState r"
  have an: "analyser ?s" by (simp add: restState_def)
  have th: "pb_threshold (analyse ?f ?s) = Some (569 / 1960)"
    by (simp add: analyse_locals restState_def fluxThreshold_after_rest)
  have fl: "pb_flux (analyse ?f ?s) = 1"
    by (simp add: analyse_locals restState_def frame_eval)
  have de: "pb_delta (analyse ?f ?s) = 1391 / 1960"
    using th fl by (simp add: analyse_locals)
  have no: "pb_normalized (analyse ?f ?s) = 0"
    by (simp add: analyse_locals frame_eval)
  have m: "pb_state (analyse ?f ?s) =
           (secondBeatState r [] 0)\<lparr>beatPulse := 0.64672, prevFlux := 0, beatDetected := False\<rparr>"
    unfolding analyse_state de
    by (simp add: restState_def secondBeatState_def frame_eval) (simp add: num_eval)
  note te = tick_eval[OF an constFrame_sel(4) m fl, unfolded th de no]
  show ?thesis
  proof (cases "0 < r \<and> t - r < 1400")
    case True
    with assms have "200 < t - r" by auto
    with True show ?thesis
      using te[of True "secondBeatState t [t - r] (Math_round (clamp (60000 / (t - r)) 50 200))"]
      by (simp add: restState_def secondBeatState_def constFrame_sel cfg tempoUpdate_def
          pushCapped_def Let_def max_def)
  next
    case False
    with assms show ?thesis
      using te[of True "secondBeatState t [] 0"]
      by (auto simp add: restState_def secondBeatState_def constFrame_sel cfg)
  qed
qed

lemma fluxThreshold_after_second_beat:
  "fluxThreshold (replicate 12 0 @ [1, 0, 1]) = Some (193 / 375)"
  by (simp add: fluxThreshold_def Let_def cfg sum_list_replicate)

lemma fluxThreshold_after_second_rest:
  "fluxThreshold (replicate 12 0 @ [1, 0, 1, 0]) = Some (311 / 640)"
  by (simp add: fluxThreshold_def Let_def cfg sum_list_replicate)

lemma rest2_tick:
  assumes "0 < t"
  shows "update (constFrame 0 t') (secondBeatState t iv b) =
     Some (snapshotOf False (replicate frequencyBinCount 0)
             (if t' - t > beatSilenceResetMs \<or> t' > beatSilenceResetMs
              then restState2 0 [] 0 else restState2 t iv b),
           (if t' - t > beatSilenceResetMs \<or> t' > beatSilenceResetMs
            then restState2 0 [] 0 else restState2 t iv b))"
proof -
  let ?f = "constFrame 0 t'" and ?s = "secondBeatState t iv b"
  have an: "analyser ?s" by (simp add: secondBeatState_def)
  have th: "pb_threshold (analyse ?f ?s) = Some (193 / 375)"
    by (simp add: analyse_locals secondBeatState_def fluxThreshold_after_second_beat)
  have fl: "pb_flux (analyse ?f ?s) = 0"
    by (simp add: analyse_locals secondBeatState_def frame_eval)
  have de: "pb_delta (analyse ?f ?s) = - (193 / 375)"
    using th fl by (simp add: analyse_locals)
  have no: "pb_normalized (analyse ?f ?s) = 0"
    by (simp add: analyse_locals frame_eval)
  have m: "pb_state (analyse ?f ?s) = (restState2 t iv b)\<lparr>prevFlux := 1, beatDetected := True\<rparr>"
    unfolding analyse_state de
    by (simp add: restState2_def secondBeatState_def frame_eval) (simp add: num_eval)
  note te = tick_eval[OF an constFrame_sel(4) m fl, unfolded th de no]
  show ?thesis
    using te[of False "if t' - t > beatSilenceResetMs \<or> t' > beatSilenceResetMs
              then restState2 0 [] 0 else restState2 t iv b"] assms
    by (simp add: restState2_def secondBeatState_def constFrame_sel cfg)
qed

lemma third_beat_tick:
  assumes "0 < r" and "1400 \<le> t - r"
  shows "update (constFrame 255 t) (restState2 r iv b) =
     Some (snapshotOf True (replicate frequencyBinCount 255) (thirdBeatState t iv b),
           thirdBeatState t iv b)"
proof -
  let ?f = "constFrame 255 t" and ?s = "restState2 r iv b"
  have an: "analyser ?s" by (simp add: restState2_def)
  have th: "pb_threshold (analyse ?f ?s) = Some (311 / 640)"
    by (simp add: analyse_locals restState2_def fluxThreshold_after_second_rest)
  have fl: "pb_flux (analyse ?f ?s) = 1"
    by (simp add: analyse_locals restState2_def frame_eval)
  have de: "pb_delta (analyse ?f ?s) = 329 / 640"
    using th fl by (simp add: analyse_locals)
  have no: "pb_normalized (analyse ?f ?s) = 0"
    by (simp add: analyse_locals frame_eval)
  have m: "pb_state (analyse ?f ?s) =
           (thirdBeatState r iv b)\<lparr>beatPulse := 0.764160512, prevFlux := 0, beatDetected := False\<rparr>"
    unfolding analyse_state de
    by (simp add: restState2_def thirdBeatState_def frame_eval) (simp add: num_eval)
  note te = tick_eval[OF an constFrame_sel(4) m fl, unfolded th de no]
  show ?thesis
    using te[of True "thirdBeatState t iv b"] assms
    by (simp add: restState2_def thirdBeatState_def constFrame_sel cfg)
qed

lemma state_after_quiet: "state_after s (quietTrace 0 12) = quietState 12"
  by (simp add: state_after_def quietTrace_def last_map)

lemma tempo_run: "run_ticks tempoFrames (init AudioAnalyser_new) = Some tempoTrace"
proof -
  have q: "run_ticks (map (constFrame 0) [10, 20, 30, 40, 50, 60, 70, 80, 90, 100, 110, 120])
             (init AudioAnalyser_new) = Some (quietTrace 0 12)"
  proof -
    have "length [10, 20, 30, 40, 50, 60, 70, 80, 90, 100, 110, 120 :: real] = 12" by simp
    then show ?thesis
      unfolding quietState_0[symmetric] quiet_run by (simp only:)
  qed
  have t3: "update (constFrame 255 700) (restState 200)
            = Some (snapshotOf True (replicate frequencyBinCount 255) (secondBeatState 700 [500] 120),
                    secondBeatState 700 [500] 120)"
    using second_beat_tick[of 200 700] by (simp add: clamp_def Math_round_def)
  have r: "run_ticks [constFrame 255 200, constFrame 0 300, constFrame 255 700,
             constFrame 0 800, constFrame 255 2200] (quietState 12)
           = Some (drop 12 tempoTrace)"
    using rest_tick[of 200 300] rest2_tick[of 700 800 "[500]" 120]
      third_beat_tick[of 700 2200 "[500]" 120]
    by (simp add: first_beat_tick t3 tempoTrace_def quietTrace_def cfg)
  have "run_ticks tempoFrames (init AudioAnalyser_new) = Some (quietTrace 0 12 @ drop 12 tempoTrace)"
    unfolding tempoFrames_def run_ticks_append q
    by (simp only: option.case state_after_quiet r)
  moreover have "quietTrace 0 12 @ drop 12 tempoTrace = tempoTrace"
    by (simp add: tempoTrace_def quietTrace_def)
  ultimately show ?thesis by simp
qed

lemma burst_run: "run_ticks burstFrames (init AudioAnalyser_new) = Some burstTrace"
proof -
  have q: "run_ticks (map (constFrame 0)
             [3000, 3016, 3032, 3048, 3064, 3080, 3096, 3112, 3128, 3144, 3160, 3176])
             (init AudioAnalyser_new) = Some (quietTrace 0 12)"
  proof -
    have "length [3000, 3016, 3032, 3048, 3064, 3080, 3096, 3112, 3128, 3144, 3160, 3176 :: real]
          = 12" by simp
    then show ?thesis
      unfolding quietState_0[symmetric] quiet_run by (simp only:)
  qed
  have r: "run_ticks [constFrame 255 3192, constFrame 0 3208, constFrame 255 3224] (quietState 12)
           = Some (drop 12 burstTrace)"
    using rest_tick[of 3192 3208] second_beat_tick[of 0 3224]
    by (simp add: first_beat_tick burstTrace_def quietTrace_def cfg)
  have "run_ticks burstFrames (init AudioAnalyser_new) = Some (quietTrace 0 12 @ drop 12 burstTrace)"
    unfolding burstFrames_def run_ticks_append q
    by (simp only: option.case state_after_quiet r)
  moreover have "quietTrace 0 12 @ drop 12 burstTrace = burstTrace"
    by (simp add: burstTrace_def quietTrace_def)
  ultimately show ?thesis by simp
qed

theorem silence_reset_clears_tempo_witness:
  "analyser (secondBeatState 700 [500] 120)
   \<and> update (constFrame 0 3400) (secondBeatState 700 [500] 120)
       = Some (snapshotOf False (replicate frequencyBinCount 0) (restState2 0 [] 0),
               restState2 0 [] 0)
   \<and> \<not> snap_beatDetected (snapshotOf False (replicate frequencyBinCount 0) (restState2 0 [] 0))
   \<and> ((lastBeatTime (secondBeatState 700 [500] 120) > 0
        \<and> frameNow (constFrame 0 3400) - lastBeatTime (secondBeatState 700 [500] 120)
            > beatSilenceResetMs)
       \<or> frameNow (constFrame 0 3400) - lastAudioActive (restState2 0 [] 0) > beatSilenceResetMs)
   \<and> bpm (secondBeatState 700 [500] 120) = 120
   \<and> beatIntervals (restState2 0 [] 0) = [] \<and> lastBeatTime (restState2 0 [] 0) = 0
   \<and> bpm (restState2 0 [] 0) = 0"
proof -
  have h1: "analyser (secondBeatState 700 [500] 120)"
    by (simp add: secondBeatState_def)
  have h2: "update (constFrame 0 3400) (secondBeatState 700 [500] 120)
       = Some (snapshotOf False (replicate frequencyBinCount 0) (restState2 0 [] 0),
               restState2 0 [] 0)"
    using rest2_tick[of 700 3400 "[500]" 120] by (simp add: cfg)
  have h3: "\<not> snap_beatDetected
              (snapshotOf False (replicate frequencyBinCount 0) (restState2 0 [] 0))"
    by (simp add: snapshotOf_def)
  have h4: "(lastBeatTime (secondBeatState 700 [500] 120) > 0
        \<and> frameNow (constFrame 0 3400) - lastBeatTime (secondBeatState 700 [500] 120)
            > beatSilenceResetMs)
       \<or> frameNow (constFrame 0 3400) - lastAudioActive (restState2 0 [] 0) > beatSilenceResetMs"
    by (simp add: secondBeatState_def constFrame_sel cfg)
  have h5: "bpm (secondBeatState 700 [500] 120) = 120"
    by (simp add: secondBeatState_def)
  from silence_reset_clears_tempo[OF h1 h2 h3 h4] h1 h2 h3 h4 h5 show ?thesis
    by blast
qed

theorem tempo_discontinuity_still_fires_witness:
  "analyser (restState2 700 [500] 120)
   \<and> update (constFrame 255 2200) (restState2 700 [500] 120)
       = Some (snapshotOf True (replicate frequencyBinCount 255) (thirdBeatState 2200 [500] 120),
               thirdBeatState 2200 [500] 120)
   \<and> pb_threshold (analyse (constFrame 255 2200) (restState2 700 [500] 120)) = Some (311 / 640)
   \<and> pb_delta (analyse (constFrame 255 2200) (restState2 700 [500] 120)) = 329 / 640
   \<and> 329 / 640 > fluxDeltaFloor
   \<and> pb_flux (analyse (constFrame 255 2200) (restState2 700 [500] 120)) = 1
   \<and> prevFlux (restState2 700 [500] 120) = 0
   \<and> bandEnergy (pb_state (analyse (constFrame 255 2200) (restState2 700 [500] 120)))
       = \<lparr>low = 1, mid = 1, high = 1\<rparr>
   \<and> (1::real) * 0.5 + 1 * 0.35 + 1 * 0.25 > beatEnergyFloor
   \<and> frameNow (constFrame 255 2200) - lastBeatTime (restState2 700 [500] 120)
       \<ge> beatMaxIntervalMs
   \<and> beatIntervals (restState2 700 [500] 120) = [500] \<and> bpm (restState2 700 [500] 120) = 120
   \<and> snap_beatDetected
       (snapshotOf True (replicate frequencyBinCount 255) (thirdBeatState 2200 [500] 120))
   \<and> beatDetected (thirdBeatState 2200 [500] 120)
   \<and> lastBeatTime (thirdBeatState 2200 [500] 120) = frameNow (constFrame 255 2200)
   \<and> beatIntervals (thirdBeatState 2200 [500] 120) = beatIntervals (restState2 700 [500] 120)
   \<and> bpm (thirdBeatState 2200 [500] 120) = bpm (restState2 700 [500] 120)"
proof -
  let ?f = "constFrame 255 2200" and ?s = "restState2 700 [500] 120"
  have h1: "analyser ?s"
    by (simp add: restState2_def)
  have h2: "update ?f ?s
       = Some (snapshotOf True (replicate frequencyBinCount 255) (thirdBeatState 2200 [500] 120),
               thirdBeatState 2200 [500] 120)"
    using third_beat_tick[of 700 2200 "[500]" 120] by simp
  have th: "pb_threshold (analyse ?f ?s) = Some (311 / 640)"
    by (simp add: analyse_locals restState2_def fluxThreshold_after_second_rest)
  have fl: "pb_flux (analyse ?f ?s) = 1"
    by (simp add: analyse_locals restState2_def frame_eval)
  have de: "pb_delta (analyse ?f ?s) = 329 / 640"
    using th fl by (simp add: analyse_locals)
  have fd: "329 / 640 > fluxDeltaFloor"
    by (simp add: cfg)
  have pf: "prevFlux ?s = 0"
    by (simp add: restState2_def)
  have be: "bandEnergy (pb_state (analyse ?f ?s)) = \<lparr>low = 1, mid = 1, high = 1\<rparr>"
    by (simp add: analyse_state frame_eval)
  have ef: "(1::real) * 0.5 + 1 * 0.35 + 1 * 0.25 > beatEnergyFloor"
    by (simp add: cfg)
  have h3: "pb_threshold (analyse ?f ?s) \<noteq> None \<and> pb_delta (analyse ?f ?s) > fluxDeltaFloor"
    using th de fd by simp
  have h4: "pb_flux (analyse ?f ?s) > prevFlux ?s"
    using fl pf by simp
  have h5: "pb_normalized (analyse ?f ?s) > beatLevelFloor
         \<or> low (bandEnergy (pb_state (analyse ?f ?s))) * 0.5
             + mid (bandEnergy (pb_state (analyse ?f ?s))) * 0.35
             + high (bandEnergy (pb_state (analyse ?f ?s))) * 0.25 > beatEnergyFloor"
    using ef unfolding be by simp
  have h6: "frameNow ?f - lastBeatTime ?s \<ge> beatMaxIntervalMs"
    by (simp add: restState2_def constFrame_sel cfg)
  have h7: "beatIntervals ?s = [500] \<and> bpm ?s = 120"
    by (simp add: restState2_def)
  from tempo_discontinuity_still_fires[OF h1 h2 h3 h4 h5 h6] h1 h2 th de fd fl pf be ef h6 h7
  show ?thesis
    by blast
qed

theorem silence_reset_frame_witness:
  "analyser (secondBeatState 700 [500] 120)
   \<and> update (constFrame 0 3400) (secondBeatState 700 [500] 120)
       = Some (snapshotOf False (replicate frequencyBinCount 0) (restState2 0 [] 0),
               restState2 0 [] 0)
   \<and> \<not> snap_beatDetected (snapshotOf False (replicate frequencyBinCount 0) (restState2 0 [] 0))
   \<and> ((lastBeatTime (secondBeatState 700 [500] 120) > 0
        \<and> frameNow (constFrame 0 3400) - lastBeatTime (secondBeatState 700 [500] 120)
            > beatSilenceResetMs)
       \<or> frameNow (constFrame 0 3400) - lastAudioActive (restState2 0 [] 0) > beatSilenceResetMs)
   \<and> restState2 0 [] 0
       = (pb_state (analyse (constFrame 0 3400) (secondBeatState 700 [500] 120)))
           \<lparr>beatIntervals := [], lastBeatTime := 0, bpm := 0,
            prevFlux := pb_flux (analyse (constFrame 0 3400) (secondBeatState 700 [500] 120)),
            beatDetected := False\<rparr>
   \<and> fluxHistory (restState2 0 [] 0)
       = pushCapped fluxHistorySize
           (pb_flux (analyse (constFrame 0 3400) (secondBeatState 700 [500] 120)))
           (fluxHistory (secondBeatState 700 [500] 120))
   \<and> length (fluxHistory (restState2 0 [] 0)) = 16"
proof -
  have h1: "analyser (secondBeatState 700 [500] 120)"
    by (simp add: secondBeatState_def)
  have h2: "update (constFrame 0 3400) (secondBeatState 700 [500] 120)
       = Some (snapshotOf False (replicate frequencyBinCount 0) (restState2 0 [] 0),
               restState2 0 [] 0)"
    using rest2_tick[of 700 3400 "[500]" 120] by (simp add: cfg)
  have h3: "\<not> snap_beatDetected
              (snapshotOf False (replicate frequencyBinCount 0) (restState2 0 [] 0))"
    by (simp add: snapshotOf_def)
  have h4: "(lastBeatTime (secondBeatState 700 [500] 120) > 0
        \<and> frameNow (constFrame 0 3400) - lastBeatTime (secondBeatState 700 [500] 120)
            > beatSilenceResetMs)
       \<or> frameNow (constFrame 0 3400) - lastAudioActive (restState2 0 [] 0) > beatSilenceResetMs"
    by (simp add: secondBeatState_def constFrame_sel cfg)
  have h5: "length (fluxHistory (restState2 0 [] 0)) = 16"
    by (simp add: restState2_def)
  from silence_reset_frame[OF h1 h2 h3 h4] h1 h2 h3 h4 h5 show ?thesis
    by blast
qed



subsection \<open>Ranges\<close>

lemma lerp_range:
  assumes "0 \<le> t" "t \<le> 1" "lo \<le> a" "a \<le> hi" "lo \<le> b" "b \<le> hi"
  shows "lo \<le> lerp a b t" and "lerp a b t \<le> hi"
proof -
  have e: "lerp a b t = (1 - t) * a + t * b" by (simp add: lerp_def algebra_simps)
  have "(1 - t) * lo + t * lo \<le> (1 - t) * a + t * b"
    using assms by (intro add_mono mult_left_mono) simp_all
  then show "lo \<le> lerp a b t" unfolding e by (simp add: algebra_simps)
  have "(1 - t) * a + t * b \<le> (1 - t) * hi + t * hi"
    using assms by (intro add_mono mult_left_mono) simp_all
  then show "lerp a b t \<le> hi" unfolding e by (simp add: algebra_simps)
qed

lemma clamp_range: "lo \<le> hi \<Longrightarrow> lo \<le> clamp v lo hi \<and> clamp v lo hi \<le> hi"
  by (simp add: clamp_def)

lemma Math_pow_unit: "0 \<le> x \<Longrightarrow> x \<le> 1 \<Longrightarrow> 0 \<le> e \<Longrightarrow> 0 \<le> Math_pow x e \<and> Math_pow x e \<le> 1"
  by (simp add: Math_pow_def powr_le1)

lemma Math_round_range: "50 \<le> x \<Longrightarrow> x \<le> 200 \<Longrightarrow> 50 \<le> Math_round x \<and> Math_round x \<le> 200"
  unfolding Math_round_def by (simp add: le_floor_iff floor_le_iff)

lemma convert_unit: "0 \<le> convert sm cnt \<and> convert sm cnt \<le> 1"
  unfolding convert_def Let_def
  by (rule Math_pow_unit) (simp_all add: clamp_def cfg)

lemma computeBands_unit:
  "0 \<le> low (computeBands fr) \<and> low (computeBands fr) \<le> 1
   \<and> 0 \<le> mid (computeBands fr) \<and> mid (computeBands fr) \<le> 1
   \<and> 0 \<le> high (computeBands fr) \<and> high (computeBands fr) \<le> 1"
  by (simp add: computeBands_def Let_def split_def convert_unit)

lemma computeBrightness_unit: "0 \<le> computeBrightness b \<and> computeBrightness b \<le> 1"
  by (simp add: computeBrightness_def Let_def clamp_def)

lemma normalizedLevel_unit: "0 \<le> normalizedLevel td \<and> normalizedLevel td \<le> 1"
  by (simp add: normalizedLevel_def clamp_def)

lemma targetBeatPulse_unit: "0 \<le> targetBeatPulse n la d be \<and> targetBeatPulse n la d be \<le> 1"
  by (simp add: targetBeatPulse_def Let_def clamp_def)

lemma pushCapped_length: "length xs \<le> cap \<Longrightarrow> 0 < cap \<Longrightarrow> length (pushCapped cap x xs) \<le> cap"
  by (simp add: pushCapped_def Let_def)

lemma pushCapped_drop:
  assumes "length xs \<le> cap"
  shows "pushCapped cap x xs = drop (length xs + 1 - cap) (xs @ [x])"
proof (cases "length xs = cap")
  case True
  then have "length xs + 1 - cap = Suc 0" by simp
  moreover have "drop (Suc 0) (xs @ [x]) = tl (xs @ [x])"
    by (metis drop0 drop_Suc)
  ultimately show ?thesis using True by (simp add: pushCapped_def Let_def del: drop_append)
next
  case False
  then show ?thesis using assms by (simp add: pushCapped_def Let_def)
qed

lemma tempoUpdate_ok:
  assumes "bpm s = 0 \<or> (50 \<le> bpm s \<and> bpm s \<le> 200)" and "length (beatIntervals s) \<le> bpmWindow"
  shows "50 \<le> bpm (tempoUpdate i s) \<and> bpm (tempoUpdate i s) \<le> 200
         \<and> length (beatIntervals (tempoUpdate i s)) \<le> bpmWindow"
proof -
  let ?iv = "pushCapped bpmWindow i (beatIntervals s)"
  let ?t = "clamp (60000 / max (sum_list ?iv / real (length ?iv)) 1) 50 200"
  have t: "50 \<le> ?t \<and> ?t \<le> 200" by (rule clamp_range) simp
  have b: "bpm (tempoUpdate i s) =
           (if bpm s = 0 then Math_round ?t else Math_round (lerp (bpm s) ?t bpmSmoothing))"
    by (simp add: tempoUpdate_def Let_def)
  have "50 \<le> bpm (tempoUpdate i s) \<and> bpm (tempoUpdate i s) \<le> 200"
  proof (cases "bpm s = 0")
    case True
    then show ?thesis unfolding b using Math_round_range t by simp
  next
    case False
    with assms(1) have r: "50 \<le> bpm s" "bpm s \<le> 200" by auto
    have "50 \<le> lerp (bpm s) ?t bpmSmoothing" "lerp (bpm s) ?t bpmSmoothing \<le> 200"
      using lerp_range[of bpmSmoothing 50 "bpm s" 200 ?t] r t by (simp_all add: cfg)
    then show ?thesis unfolding b using False Math_round_range by simp
  qed
  moreover have "length (beatIntervals (tempoUpdate i s)) \<le> bpmWindow"
    using pushCapped_length[OF assms(2), of i] by (simp add: tempoUpdate_def Let_def cfg)
  ultimately show ?thesis by blast
qed

lemma detectBeat_tempo_ok:
  assumes "bpm s = 0 \<or> (50 \<le> bpm s \<and> bpm s \<le> 200)" and "length (beatIntervals s) \<le> bpmWindow"
  shows "(bpm (snd (detectBeat lv fl th de be now s)) = 0
          \<or> (50 \<le> bpm (snd (detectBeat lv fl th de be now s))
              \<and> bpm (snd (detectBeat lv fl th de be now s)) \<le> 200))
         \<and> length (beatIntervals (snd (detectBeat lv fl th de be now s))) \<le> bpmWindow"
  unfolding detectBeat_snd
  using assms tempoUpdate_ok[OF assms, of "now - lastBeatTime s"]
  by simp

lemma tick_ok:
  assumes "state_ok s" and "update f s = Some (out, s')"
  shows "state_ok s'"
    and "0 \<le> snap_level out \<and> snap_level out \<le> 1
         \<and> 0 \<le> low (snap_bandEnergy out) \<and> low (snap_bandEnergy out) \<le> 1
         \<and> 0 \<le> mid (snap_bandEnergy out) \<and> mid (snap_bandEnergy out) \<le> 1
         \<and> 0 \<le> high (snap_bandEnergy out) \<and> high (snap_bandEnergy out) \<le> 1
         \<and> 0 \<le> snap_beatPulse out \<and> snap_beatPulse out \<le> 1
         \<and> 0 \<le> snap_brightness out \<and> snap_brightness out \<le> 1
         \<and> (snap_bpm out = 0 \<or> (50 \<le> snap_bpm out \<and> snap_bpm out \<le> 200))"
proof -
  have "state_ok s' \<and> (0 \<le> snap_level out \<and> snap_level out \<le> 1
         \<and> 0 \<le> low (snap_bandEnergy out) \<and> low (snap_bandEnergy out) \<le> 1
         \<and> 0 \<le> mid (snap_bandEnergy out) \<and> mid (snap_bandEnergy out) \<le> 1
         \<and> 0 \<le> high (snap_bandEnergy out) \<and> high (snap_bandEnergy out) \<le> 1
         \<and> 0 \<le> snap_beatPulse out \<and> snap_beatPulse out \<le> 1
         \<and> 0 \<le> snap_brightness out \<and> snap_brightness out \<le> 1
         \<and> (snap_bpm out = 0 \<or> (50 \<le> snap_bpm out \<and> snap_bpm out \<le> 200)))"
  proof (cases "analyser s")
    case False
    with assms(2) have "out = emptyState" "s' = s" by (simp_all add: update_def)
    with assms(1) show ?thesis by (simp add: emptyState_def)
  next
    case True
    note t = update_tick[OF True assms(2)] and tf = tick_fields[OF True assms(2)]
    let ?p = "analyse f s"
    let ?r = "detectBeat (pb_normalized ?p) (pb_flux ?p) (pb_threshold ?p) (pb_delta ?p)
                 (bandEnergy (pb_state ?p)) (frameNow f) (pb_state ?p)"
    from assms(1) have s: "0 \<le> level s" "level s \<le> 1" "0 \<le> beatPulse s" "beatPulse s \<le> 1"
      "bpm s = 0 \<or> (50 \<le> bpm s \<and> bpm s \<le> 200)" "length (beatIntervals s) \<le> bpmWindow"
      "length (fluxHistory s) \<le> fluxHistorySize"
      by (simp_all add: state_ok_def)
    have lv: "0 \<le> level s'" "level s' \<le> 1"
      using lerp_range[of "0.4" 0 "level s" 1 "normalizedLevel (timeData f)"] s
        normalizedLevel_unit[of "timeData f"]
      by (simp_all add: tf analyse_state)
    have bp0: "0 \<le> beatPulse (pb_state ?p)" "beatPulse (pb_state ?p) \<le> 1"
      using lerp_range[of "0.36" 0 "beatPulse s" 1
          "targetBeatPulse (normalizedLevel (timeData f))
             (lerp (levelAverage s) (normalizedLevel (timeData f)) 0.06)
             (pb_delta ?p) (computeBands (freqData f))"] s targetBeatPulse_unit
      by (simp_all add: analyse_state)
    have bp: "0 \<le> beatPulse s'" "beatPulse s' \<le> 1"
      using bp0 by (simp_all add: tf(13))
    have tm: "(bpm s' = 0 \<or> (50 \<le> bpm s' \<and> bpm s' \<le> 200))
              \<and> length (beatIntervals s') \<le> bpmWindow"
      using detectBeat_tempo_ok[of "pb_state ?p" "pb_normalized ?p" "pb_flux ?p"
          "pb_threshold ?p" "pb_delta ?p" "bandEnergy (pb_state ?p)" "frameNow f"] s
      by (simp add: t(2) analyse_fields)
    have fh: "length (fluxHistory s') \<le> fluxHistorySize"
      using pushCapped_length[OF s(7), of "pb_flux ?p"]
      by (simp add: tf analyse_state analyse_locals cfg)
    have be: "bandEnergy s' = computeBands (freqData f)"
      "brightness s' = computeBrightness (computeBands (freqData f))"
      by (simp_all add: tf analyse_state)
    have o: "snap_level out = level s'" "snap_bandEnergy out = bandEnergy s'"
      "snap_beatPulse out = beatPulse s'" "snap_brightness out = brightness s'"
      "snap_bpm out = bpm s'"
      by (simp_all add: t(3) snapshotOf_def)
    show ?thesis
      unfolding o state_ok_def be
      using lv bp tm fh computeBands_unit[of "freqData f"]
        computeBrightness_unit[of "computeBands (freqData f)"]
      by simp
  qed
  then show "state_ok s'"
    and "0 \<le> snap_level out \<and> snap_level out \<le> 1
         \<and> 0 \<le> low (snap_bandEnergy out) \<and> low (snap_bandEnergy out) \<le> 1
         \<and> 0 \<le> mid (snap_bandEnergy out) \<and> mid (snap_bandEnergy out) \<le> 1
         \<and> 0 \<le> high (snap_bandEnergy out) \<and> high (snap_bandEnergy out) \<le> 1
         \<and> 0 \<le> snap_beatPulse out \<and> snap_beatPulse out \<le> 1
         \<and> 0 \<le> snap_brightness out \<and> snap_brightness out \<le> 1
         \<and> (snap_bpm out = 0 \<or> (50 \<le> snap_bpm out \<and> snap_bpm out \<le> 200))"
    by blast+
qed

lemma state_after_Cons: "state_after s ((out, s1) # tr) = state_after s1 tr"
  by (simp add: state_after_def)

lemma run_state_ok:
  "state_ok s0 \<Longrightarrow> run_ticks fs s0 = Some tr \<Longrightarrow> state_ok (state_after s0 tr)"
proof (induction fs arbitrary: s0 tr)
  case Nil
  then show ?case by (simp add: state_after_def)
next
  case (Cons f fs)
  from Cons.prems(2) obtain out s1 tr1 where
    u: "update f s0 = Some (out, s1)" and r: "run_ticks fs s1 = Some tr1"
    and tr: "tr = (out, s1) # tr1"
    by (auto split: option.splits)
  from tick_ok(1)[OF Cons.prems(1) u] Cons.IH[OF _ r] show ?case
    by (simp add: tr state_after_Cons)
qed

lemma fresh_state_ok: "state_ok AudioAnalyser_new" "state_ok (init AudioAnalyser_new)"
  by (simp_all add: state_ok_def AudioAnalyser_new_def init_def)

lemma tick_beatIntervals:
  assumes "length (beatIntervals s) \<le> bpmWindow" and "update f s = Some (out, s')"
  shows "beatIntervals s' = beatIntervals s \<or> beatIntervals s' = []
         \<or> beatIntervals s' = drop (length (beatIntervals s) + 1 - bpmWindow)
                                  (beatIntervals s @ [frameNow f - lastBeatTime s])"
proof (cases "analyser s")
  case False
  with assms(2) show ?thesis by (simp add: update_def)
next
  case True
  note r = tick_result[OF True assms(2)]
  let ?m = "pb_state (analyse f s)"
  let ?d = "fst (detectBeat (pb_normalized (analyse f s)) (pb_flux (analyse f s))
                   (pb_threshold (analyse f s)) (pb_delta (analyse f s))
                   (bandEnergy ?m) (frameNow f) ?m)"
  let ?R = "(lastBeatTime s > 0 \<and> frameNow f - lastBeatTime s > beatSilenceResetMs)
              \<or> frameNow f - lastAudioActive ?m > beatSilenceResetMs"
  let ?T = "lastBeatTime s > 0 \<and> frameNow f - lastBeatTime s < beatMaxIntervalMs"
  consider (tempo) "?d" "?T" | (gap) "?d" "\<not> ?T" | (reset) "\<not> ?d" "?R" | (idle) "\<not> ?d" "\<not> ?R"
    by blast
  then show ?thesis
  proof cases
    case tempo
    from r(2)[OF tempo]
    have "beatIntervals s' = pushCapped bpmWindow (frameNow f - lastBeatTime s) (beatIntervals s)"
      by (simp add: tempoUpdate_def Let_def analyse_fields)
    then show ?thesis using pushCapped_drop[OF assms(1)] by simp
  next
    case gap
    from r(3)[OF gap] show ?thesis by (simp add: analyse_fields)
  next
    case reset
    from r(4)[OF reset] show ?thesis by simp
  next
    case idle
    from r(5)[OF idle] show ?thesis by (simp add: analyse_fields)
  qed
qed

text \<open>
  C1. Take any run from the state the constructor builds, with or without \<open>init\<close>, and any
  further tick. The snapshot of that tick has \<open>level\<close>, the three band energies,
  \<open>beatPulse\<close> and \<open>brightness\<close> in [0,1] and a \<open>bpm\<close> that is 0 or within [50,200]. After
  it \<open>fluxHistory\<close> holds at most \<open>fluxHistorySize\<close> (128) and \<open>beatIntervals\<close> at most
  \<open>bpmWindow\<close> (12) entries. With an analyser node, \<open>fluxHistory\<close> is the old history with
  this tick's flux appended and the oldest entry dropped if that exceeded the capacity;
  \<open>beatIntervals\<close> is unchanged, or emptied by the reset, or the old window with the new
  interval appended and the oldest entry dropped in the same way.
\<close>

theorem update_ranges_and_buffers:
  assumes "s0 = AudioAnalyser_new \<or> s0 = init AudioAnalyser_new"
    and "run_ticks fs s0 = Some tr"
    and "update f (state_after s0 tr) = Some (out, s')"
  shows "0 \<le> snap_level out \<and> snap_level out \<le> 1
         \<and> 0 \<le> low (snap_bandEnergy out) \<and> low (snap_bandEnergy out) \<le> 1
         \<and> 0 \<le> mid (snap_bandEnergy out) \<and> mid (snap_bandEnergy out) \<le> 1
         \<and> 0 \<le> high (snap_bandEnergy out) \<and> high (snap_bandEnergy out) \<le> 1
         \<and> 0 \<le> snap_beatPulse out \<and> snap_beatPulse out \<le> 1
         \<and> 0 \<le> snap_brightness out \<and> snap_brightness out \<le> 1
         \<and> (snap_bpm out = 0 \<or> (50 \<le> snap_bpm out \<and> snap_bpm out \<le> 200))
         \<and> length (fluxHistory s') \<le> fluxHistorySize
         \<and> length (beatIntervals s') \<le> bpmWindow
         \<and> (analyser (state_after s0 tr) \<longrightarrow>
              fluxHistory s' =
                drop (length (fluxHistory (state_after s0 tr)) + 1 - fluxHistorySize)
                  (fluxHistory (state_after s0 tr) @ [pb_flux (analyse f (state_after s0 tr))]))
         \<and> (beatIntervals s' = beatIntervals (state_after s0 tr) \<or> beatIntervals s' = []
              \<or> beatIntervals s' =
                   drop (length (beatIntervals (state_after s0 tr)) + 1 - bpmWindow)
                     (beatIntervals (state_after s0 tr)
                      @ [frameNow f - lastBeatTime (state_after s0 tr)]))"
proof -
  let ?s = "state_after s0 tr"
  have "state_ok s0" using assms(1) fresh_state_ok by blast
  then have ok: "state_ok ?s" using assms(2) by (rule run_state_ok)
  have ok': "state_ok s'" using ok assms(3) by (rule tick_ok(1))
  have fh: "fluxHistory s' =
                drop (length (fluxHistory ?s) + 1 - fluxHistorySize)
                  (fluxHistory ?s @ [pb_flux (analyse f ?s)])" if "analyser ?s"
  proof -
    have "fluxHistory s' = pushCapped fluxHistorySize (pb_flux (analyse f ?s)) (fluxHistory ?s)"
      by (simp add: tick_fields(9)[OF that assms(3)] analyse_state analyse_locals)
    moreover have "length (fluxHistory ?s) \<le> fluxHistorySize"
      using ok by (simp add: state_ok_def)
    ultimately show ?thesis by (simp add: pushCapped_drop)
  qed
  have bi: "beatIntervals s' = beatIntervals ?s \<or> beatIntervals s' = []
              \<or> beatIntervals s' =
                   drop (length (beatIntervals ?s) + 1 - bpmWindow)
                     (beatIntervals ?s @ [frameNow f - lastBeatTime ?s])"
    using ok assms(3) by (intro tick_beatIntervals) (simp_all add: state_ok_def)
  show ?thesis
    using tick_ok(2)[OF ok assms(3)] ok' fh bi
    unfolding state_ok_def by blast
qed

theorem update_ranges_and_buffers_witness:
  "run_ticks (map (constFrame 0) [10, 20, 30, 40, 50, 60, 70, 80, 90, 100, 110, 120])
     (init AudioAnalyser_new) = Some (quietTrace 0 12)
   \<and> update (constFrame 255 200) (state_after (init AudioAnalyser_new) (quietTrace 0 12))
       = Some (snapshotOf True (replicate frequencyBinCount 255) (beatState 200), beatState 200)
   \<and> analyser (state_after (init AudioAnalyser_new) (quietTrace 0 12))
   \<and> snap_beatPulse (snapshotOf True (replicate frequencyBinCount 255) (beatState 200)) = 0.7
   \<and> 0 \<le> snap_beatPulse (snapshotOf True (replicate frequencyBinCount 255) (beatState 200))
   \<and> snap_beatPulse (snapshotOf True (replicate frequencyBinCount 255) (beatState 200)) \<le> 1
   \<and> 0 \<le> snap_brightness (snapshotOf True (replicate frequencyBinCount 255) (beatState 200))
   \<and> snap_brightness (snapshotOf True (replicate frequencyBinCount 255) (beatState 200)) \<le> 1
   \<and> length (fluxHistory (beatState 200)) \<le> fluxHistorySize
   \<and> length (beatIntervals (beatState 200)) \<le> bpmWindow
   \<and> fluxHistory (beatState 200) =
        drop (length (fluxHistory (state_after (init AudioAnalyser_new) (quietTrace 0 12)))
              + 1 - fluxHistorySize)
          (fluxHistory (state_after (init AudioAnalyser_new) (quietTrace 0 12))
           @ [pb_flux (analyse (constFrame 255 200)
                         (state_after (init AudioAnalyser_new) (quietTrace 0 12)))])"
proof -
  have h1: "init AudioAnalyser_new = AudioAnalyser_new \<or> init AudioAnalyser_new = init AudioAnalyser_new"
    by simp
  have h2: "run_ticks (map (constFrame 0) [10, 20, 30, 40, 50, 60, 70, 80, 90, 100, 110, 120])
     (init AudioAnalyser_new) = Some (quietTrace 0 12)"
  proof -
    have "length [10, 20, 30, 40, 50, 60, 70, 80, 90, 100, 110, 120 :: real] = 12" by simp
    then show ?thesis
      unfolding quietState_0[symmetric] quiet_run by (simp only:)
  qed
  have h3: "update (constFrame 255 200) (state_after (init AudioAnalyser_new) (quietTrace 0 12))
       = Some (snapshotOf True (replicate frequencyBinCount 255) (beatState 200), beatState 200)"
    by (simp only: state_after_quiet first_beat_tick)
  have h4: "analyser (state_after (init AudioAnalyser_new) (quietTrace 0 12))"
    by (simp add: state_after_quiet quietState_def)
  have h5: "snap_beatPulse (snapshotOf True (replicate frequencyBinCount 255) (beatState 200)) = 0.7"
    by (simp add: snapshotOf_def beatState_def)
  from update_ranges_and_buffers[OF h1 h2 h3] h2 h3 h4 h5 show ?thesis
    by blast
qed

subsection \<open>Warm-up of the adaptive threshold\<close>

lemma fluxThreshold_None: "fluxThreshold h = None \<longleftrightarrow> length h < fluxMinWindow"
  by (auto simp add: fluxThreshold_def Let_def cfg)

lemma pushCapped_length_eq:
  "length xs \<le> cap \<Longrightarrow> 0 < cap \<Longrightarrow> length (pushCapped cap x xs) = min (length xs + 1) cap"
  by (simp add: pushCapped_def Let_def)

lemma run_fluxHistory_length:
  "analyser s0 \<Longrightarrow> length (fluxHistory s0) \<le> fluxHistorySize \<Longrightarrow> run_ticks fs s0 = Some tr \<Longrightarrow>
   length (fluxHistory (state_after s0 tr)) = min (length (fluxHistory s0) + length fs) fluxHistorySize
   \<and> analyser (state_after s0 tr)"
proof (induction fs arbitrary: s0 tr)
  case Nil
  then show ?case by (simp add: state_after_def)
next
  case (Cons f fs)
  from Cons.prems(3) obtain out s1 tr1 where
    u: "update f s0 = Some (out, s1)" and r: "run_ticks fs s1 = Some tr1"
    and tr: "tr = (out, s1) # tr1"
    by (auto split: option.splits)
  have a1: "analyser s1" by (rule tick_fields(1)[OF Cons.prems(1) u])
  have l1: "length (fluxHistory s1) = min (length (fluxHistory s0) + 1) fluxHistorySize"
    using pushCapped_length_eq[OF Cons.prems(2), of "pb_flux (analyse f s0)"]
    by (simp add: tick_fields(9)[OF Cons.prems(1) u] analyse_state analyse_locals cfg)
  then have "length (fluxHistory s1) \<le> fluxHistorySize" by simp
  from Cons.IH[OF a1 this r] l1 show ?case
    by (simp add: tr state_after_Cons min_def)
qed

text \<open>
  C3, as the code has it. On every tick the threshold is computed from the flux history
  as the previous ticks have left it, and the flux of the tick is pushed afterwards: the
  threshold does not depend on the frame of the tick. From a fresh, initialised analyser
  the threshold of a tick is undefined (\<open>None\<close>, the \<open>Infinity\<close> of the code) exactly while
  fewer than \<open>fluxMinWindow\<close> (12) ticks have gone before, so on ticks 1 to 12, and it is
  finite from tick 13 on; the delta reported is 0 where the threshold is undefined and the
  flux minus the threshold elsewhere.
\<close>

theorem threshold_from_earlier_ticks:
  assumes "run_ticks fs (init AudioAnalyser_new) = Some tr"
  shows "pb_threshold (analyse f (state_after (init AudioAnalyser_new) tr))
           = fluxThreshold (fluxHistory (state_after (init AudioAnalyser_new) tr))
       \<and> length (fluxHistory (state_after (init AudioAnalyser_new) tr))
           = min (length fs) fluxHistorySize
       \<and> ((pb_threshold (analyse f (state_after (init AudioAnalyser_new) tr)) = None)
            = (length fs < fluxMinWindow))
       \<and> pb_delta (analyse f (state_after (init AudioAnalyser_new) tr))
           = (case pb_threshold (analyse f (state_after (init AudioAnalyser_new) tr)) of
                None \<Rightarrow> 0
              | Some t \<Rightarrow> pb_flux (analyse f (state_after (init AudioAnalyser_new) tr)) - t)"
proof -
  let ?s = "state_after (init AudioAnalyser_new) tr"
  have l: "length (fluxHistory ?s) = min (length fs) fluxHistorySize"
    using run_fluxHistory_length[OF _ _ assms]
    by (simp add: init_def AudioAnalyser_new_def)
  have n: "(fluxThreshold (fluxHistory ?s) = None) = (length fs < fluxMinWindow)"
    unfolding fluxThreshold_None l by (auto simp add: cfg)
  have d: "pb_delta (analyse f ?s)
           = (case pb_threshold (analyse f ?s) of
                None \<Rightarrow> 0 | Some t \<Rightarrow> pb_flux (analyse f ?s) - t)"
    unfolding analyse_locals ..
  from l n d show ?thesis by (simp only: analyse_locals(3) simp_thms)
qed

theorem threshold_from_earlier_ticks_witness:
  "run_ticks (map (constFrame 0) [10, 20, 30, 40, 50, 60, 70, 80, 90, 100, 110, 120])
     (init AudioAnalyser_new) = Some (quietTrace 0 12)
   \<and> pb_threshold (analyse (constFrame 255 200)
                      (state_after (init AudioAnalyser_new) (quietTrace 0 12))) = Some 0
   \<and> length (fluxHistory (state_after (init AudioAnalyser_new) (quietTrace 0 12))) = 12
   \<and> \<not> length (map (constFrame 0) [10, 20, 30, 40, 50, 60, 70, 80, 90, 100, 110, 120])
         < fluxMinWindow
   \<and> pb_delta (analyse (constFrame 255 200)
                  (state_after (init AudioAnalyser_new) (quietTrace 0 12))) = 1"
proof -
  let ?fs = "map (constFrame 0) [10, 20, 30, 40, 50, 60, 70, 80, 90, 100, 110, 120]"
  let ?s = "state_after (init AudioAnalyser_new) (quietTrace 0 12)"
  have h: "run_ticks ?fs (init AudioAnalyser_new) = Some (quietTrace 0 12)"
  proof -
    have "length [10, 20, 30, 40, 50, 60, 70, 80, 90, 100, 110, 120 :: real] = 12" by simp
    then show ?thesis
      unfolding quietState_0[symmetric] quiet_run by (simp only:)
  qed
  have n: "\<not> length ?fs < fluxMinWindow" by (simp add: cfg)
  have fl: "pb_flux (analyse (constFrame 255 200) ?s) = 1"
    by (simp add: state_after_quiet analyse_locals quietState_def frame_eval)
  note t = threshold_from_earlier_ticks[OF h, of "constFrame 255 200"]
  from t n have d: "pb_threshold (analyse (constFrame 255 200) ?s) \<noteq> None" by blast
  have z: "fluxThreshold (fluxHistory ?s) = Some 0"
    by (simp add: state_after_quiet quietState_def fluxThreshold_zeros cfg)
  from t z have th: "pb_threshold (analyse (constFrame 255 200) ?s) = Some 0" by simp
  from t th fl have de: "pb_delta (analyse (constFrame 255 200) ?s) = 1" by simp
  from t have "length (fluxHistory ?s) = 12" by (simp add: cfg)
  with h th n de show ?thesis by blast
qed

text \<open>
  The claim as stated fails on the twelfth tick: eleven samples are in the history, the
  twelfth is the flux of the tick, and the threshold is still undefined; the history holds
  twelve samples only after the tick.
\<close>

theorem threshold_twelfth_tick_counterexample:
  "run_ticks (map (constFrame 0) [10, 20, 30, 40, 50, 60, 70, 80, 90, 100, 110])
     (init AudioAnalyser_new) = Some (quietTrace 0 11)
   \<and> state_after (init AudioAnalyser_new) (quietTrace 0 11) = quietState 11
   \<and> length (fluxHistory (quietState 11)) + 1 \<ge> fluxMinWindow
   \<and> pb_threshold (analyse (constFrame 0 120) (quietState 11)) = None
   \<and> pb_delta (analyse (constFrame 0 120) (quietState 11)) = 0
   \<and> update (constFrame 0 120) (quietState 11)
       = Some (emptyState\<lparr>snap_rmsAverage := 0.001 * 0.95 ^ 12\<rparr>, quietState 12)
   \<and> length (fluxHistory (quietState 12)) = fluxMinWindow"
proof -
  have "length [10, 20, 30, 40, 50, 60, 70, 80, 90, 100, 110 :: real] = 11" by simp
  then have h: "run_ticks (map (constFrame 0) [10, 20, 30, 40, 50, 60, 70, 80, 90, 100, 110])
     (init AudioAnalyser_new) = Some (quietTrace 0 11)"
    unfolding quietState_0[symmetric] quiet_run by (simp only:)
  have s: "state_after (init AudioAnalyser_new) (quietTrace 0 11) = quietState 11"
    by (simp add: state_after_def quietTrace_def last_map)
  have th: "pb_threshold (analyse (constFrame 0 120) (quietState 11)) = None"
    by (simp add: analyse_locals quietState_def fluxThreshold_zeros cfg)
  then have de: "pb_delta (analyse (constFrame 0 120) (quietState 11)) = 0"
    by (simp add: analyse_locals)
  have u: "update (constFrame 0 120) (quietState 11)
       = Some (emptyState\<lparr>snap_rmsAverage := 0.001 * 0.95 ^ 12\<rparr>, quietState 12)"
    using quiet_tick[of 120 11] by simp
  have l: "length (fluxHistory (quietState 11)) + 1 \<ge> fluxMinWindow"
    "length (fluxHistory (quietState 12)) = fluxMinWindow"
    by (simp_all add: quietState_def cfg)
  from h s th de u l show ?thesis by blast
qed

subsection \<open>The first tempo estimate\<close>

lemma run_ticks_length: "run_ticks fs s = Some tr \<Longrightarrow> length tr = length fs"
proof (induction fs arbitrary: s tr)
  case Nil
  then show ?case by simp
next
  case (Cons f fs)
  from Cons.prems obtain out s1 tr1 where
    "run_ticks fs s1 = Some tr1" "tr = (out, s1) # tr1"
    by (auto split: option.splits)
  with Cons.IH show ?case by simp
qed

lemma run_ticks_snoc:
  assumes "run_ticks (fs @ [f]) s = Some tr"
  obtains tr0 out s' where "run_ticks fs s = Some tr0"
    and "update f (state_after s tr0) = Some (out, s')" and "tr = tr0 @ [(out, s')]"
proof -
  from assms obtain tr0 tr1 where a: "run_ticks fs s = Some tr0"
    and b: "run_ticks [f] (state_after s tr0) = Some tr1" and c: "tr = tr0 @ tr1"
    unfolding run_ticks_append by (auto split: option.splits)
  from b obtain out s' where "update f (state_after s tr0) = Some (out, s')" "tr1 = [(out, s')]"
    by (auto split: option.splits)
  with a c that show ?thesis by blast
qed

lemma state_after_snoc: "state_after s (tr @ [(out, s')]) = s'"
  by (simp add: state_after_def)

lemma tick_lastBeatTime:
  assumes "update f s = Some (out, s')"
  shows "(snap_beatDetected out \<and> lastBeatTime s' = frameNow f)
         \<or> (\<not> snap_beatDetected out \<and> (lastBeatTime s' = 0 \<or> lastBeatTime s' = lastBeatTime s))"
proof (cases "analyser s")
  case False
  with assms have "out = emptyState" "s' = s" by (simp_all add: update_def)
  then show ?thesis by (simp add: emptyState_def)
next
  case True
  note r = tick_result[OF True assms]
  let ?m = "pb_state (analyse f s)"
  let ?d = "fst (detectBeat (pb_normalized (analyse f s)) (pb_flux (analyse f s))
                   (pb_threshold (analyse f s)) (pb_delta (analyse f s))
                   (bandEnergy ?m) (frameNow f) ?m)"
  let ?R = "(lastBeatTime s > 0 \<and> frameNow f - lastBeatTime s > beatSilenceResetMs)
              \<or> frameNow f - lastAudioActive ?m > beatSilenceResetMs"
  let ?T = "lastBeatTime s > 0 \<and> frameNow f - lastBeatTime s < beatMaxIntervalMs"
  consider (tempo) "?d" "?T" | (gap) "?d" "\<not> ?T" | (reset) "\<not> ?d" "?R" | (idle) "\<not> ?d" "\<not> ?R"
    by blast
  then show ?thesis
  proof cases
    case tempo
    from r(2)[OF tempo] r(1) tempo(1) show ?thesis by simp
  next
    case gap
    from r(3)[OF gap] r(1) gap(1) show ?thesis by simp
  next
    case reset
    from r(4)[OF reset] r(1) reset(1) show ?thesis by simp
  next
    case idle
    from r(5)[OF idle] r(1) idle(1) show ?thesis by (simp add: analyse_fields)
  qed
qed

text \<open>Where \<open>lastBeatTime\<close> is not 0 it is the time of an earlier tick that confirmed a beat.\<close>

lemma lastBeatTime_is_a_beat:
  assumes "lastBeatTime s0 = 0"
  shows "run_ticks fs s0 = Some tr \<Longrightarrow> lastBeatTime (state_after s0 tr) \<noteq> 0 \<Longrightarrow>
         \<exists>k<length fs. snap_beatDetected (fst (tr ! k))
                        \<and> frameNow (fs ! k) = lastBeatTime (state_after s0 tr)"
proof (induction fs arbitrary: tr rule: rev_induct)
  case Nil
  with assms show ?case by (simp add: state_after_def)
next
  case (snoc f fs)
  from snoc.prems(1) obtain tr0 out s' where
    r: "run_ticks fs s0 = Some tr0" and u: "update f (state_after s0 tr0) = Some (out, s')"
    and tr: "tr = tr0 @ [(out, s')]"
    by (rule run_ticks_snoc)
  have len: "length tr0 = length fs" using r by (rule run_ticks_length)
  have sa: "state_after s0 tr = s'" by (simp add: tr state_after_snoc)
  from tick_lastBeatTime[OF u] snoc.prems(2) sa
  consider (beat) "snap_beatDetected out" "lastBeatTime s' = frameNow f"
    | (keep) "lastBeatTime s' = lastBeatTime (state_after s0 tr0)"
    by auto
  then show ?case
  proof cases
    case beat
    then have "snap_beatDetected (fst (tr ! length fs))
               \<and> frameNow ((fs @ [f]) ! length fs) = lastBeatTime (state_after s0 tr)"
      using sa by (simp add: tr len[symmetric] nth_append)
    then show ?thesis by (intro exI[of _ "length fs"]) simp
  next
    case keep
    with snoc.prems(2) sa have "lastBeatTime (state_after s0 tr0) \<noteq> 0" by simp
    from snoc.IH[OF r this] obtain k where k: "k < length fs"
      "snap_beatDetected (fst (tr0 ! k))"
      "frameNow (fs ! k) = lastBeatTime (state_after s0 tr0)" by blast
    then have "snap_beatDetected (fst (tr ! k))
               \<and> frameNow ((fs @ [f]) ! k) = lastBeatTime (state_after s0 tr)"
      using keep sa len by (simp add: tr nth_append)
    with k(1) show ?thesis by (intro exI[of _ k]) simp
  qed
qed

lemma tick_tempo_known:
  assumes "state_ok s" and "tempo_known s" and "update f s = Some (out, s')"
  shows "tempo_known s'"
proof (cases "analyser s")
  case False
  with assms show ?thesis by (simp add: update_def)
next
  case True
  note r = tick_result[OF True assms(3)]
  let ?m = "pb_state (analyse f s)"
  let ?d = "fst (detectBeat (pb_normalized (analyse f s)) (pb_flux (analyse f s))
                   (pb_threshold (analyse f s)) (pb_delta (analyse f s))
                   (bandEnergy ?m) (frameNow f) ?m)"
  let ?R = "(lastBeatTime s > 0 \<and> frameNow f - lastBeatTime s > beatSilenceResetMs)
              \<or> frameNow f - lastAudioActive ?m > beatSilenceResetMs"
  let ?T = "lastBeatTime s > 0 \<and> frameNow f - lastBeatTime s < beatMaxIntervalMs"
  have m: "bpm ?m = bpm s" "beatIntervals ?m = beatIntervals s" by (simp_all add: analyse_fields)
  consider (tempo) "?d" "?T" | (gap) "?d" "\<not> ?T" | (reset) "\<not> ?d" "?R" | (idle) "\<not> ?d" "\<not> ?R"
    by blast
  then show ?thesis
  proof cases
    case tempo
    have "50 \<le> bpm (tempoUpdate (frameNow f - lastBeatTime s) ?m)"
      using tempoUpdate_ok[of ?m "frameNow f - lastBeatTime s"] assms(1)
      by (simp add: m state_ok_def)
    with r(2)[OF tempo] show ?thesis by (simp add: tempo_known_def)
  next
    case gap
    from r(3)[OF gap] assms(2) show ?thesis by (simp add: tempo_known_def m)
  next
    case reset
    from r(4)[OF reset] show ?thesis by (simp add: tempo_known_def)
  next
    case idle
    from r(5)[OF idle] assms(2) show ?thesis by (simp add: tempo_known_def m)
  qed
qed

lemma run_tempo_known:
  "state_ok s0 \<Longrightarrow> tempo_known s0 \<Longrightarrow> run_ticks fs s0 = Some tr \<Longrightarrow> tempo_known (state_after s0 tr)"
proof (induction fs arbitrary: s0 tr)
  case Nil
  then show ?case by (simp add: state_after_def)
next
  case (Cons f fs)
  from Cons.prems(3) obtain out s1 tr1 where
    u: "update f s0 = Some (out, s1)" and r: "run_ticks fs s1 = Some tr1"
    and tr: "tr = (out, s1) # tr1"
    by (auto split: option.splits)
  from Cons.IH[OF tick_ok(1)[OF Cons.prems(1) u] tick_tempo_known[OF Cons.prems(1,2) u] r]
  show ?case by (simp add: tr state_after_Cons)
qed

lemma run_ticks_take: "run_ticks fs s = Some tr \<Longrightarrow> run_ticks (take k fs) s = Some (take k tr)"
proof (induction fs arbitrary: s tr k)
  case Nil
  then show ?case by simp
next
  case (Cons f fs)
  from Cons.prems obtain out s1 tr1 where
    u: "update f s = Some (out, s1)" and r: "run_ticks fs s1 = Some tr1"
    and tr: "tr = (out, s1) # tr1"
    by (auto split: option.splits)
  show ?case
  proof (cases k)
    case 0
    then show ?thesis by simp
  next
    case (Suc j)
    with Cons.IH[OF r, of j] u show ?thesis by (simp add: tr)
  qed
qed

text \<open>
  C10. Take any run from the state the constructor builds, with or without \<open>init\<close>, and any
  further tick. If the tick confirms a beat while \<open>lastBeatTime\<close> is 0, \<open>beatIntervals\<close> and
  \<open>bpm\<close> stay as they are. If \<open>bpm\<close> is 0 before the tick and not after it, then the tick
  has confirmed a beat, \<open>lastBeatTime\<close> was the time of an earlier tick of the run that
  confirmed one, the interval between the two lies strictly between \<open>beatMinIntervalMs\<close>
  and \<open>beatMaxIntervalMs\<close>, the window holds just this interval and \<open>bpm\<close> is
  \<open>60000 / interval\<close> clamped to [50,200] and rounded.
\<close>

theorem first_tempo_estimate:
  assumes "s0 = AudioAnalyser_new \<or> s0 = init AudioAnalyser_new"
    and "run_ticks fs s0 = Some tr"
    and "update f (state_after s0 tr) = Some (out, s')"
  shows "(snap_beatDetected out \<and> lastBeatTime (state_after s0 tr) = 0 \<longrightarrow>
            beatIntervals s' = beatIntervals (state_after s0 tr)
            \<and> bpm s' = bpm (state_after s0 tr))
       \<and> (bpm (state_after s0 tr) = 0 \<and> bpm s' \<noteq> 0 \<longrightarrow>
            snap_beatDetected out
            \<and> 0 < lastBeatTime (state_after s0 tr)
            \<and> (\<exists>k<length fs. snap_beatDetected (fst (tr ! k))
                   \<and> frameNow (fs ! k) = lastBeatTime (state_after s0 tr))
            \<and> beatMinIntervalMs < frameNow f - lastBeatTime (state_after s0 tr)
            \<and> frameNow f - lastBeatTime (state_after s0 tr) < beatMaxIntervalMs
            \<and> beatIntervals s' = [frameNow f - lastBeatTime (state_after s0 tr)]
            \<and> bpm s' = Math_round
                 (clamp (60000 / (frameNow f - lastBeatTime (state_after s0 tr))) 50 200))"
proof -
  let ?s = "state_after s0 tr"
  let ?m = "pb_state (analyse f ?s)"
  let ?d = "fst (detectBeat (pb_normalized (analyse f ?s)) (pb_flux (analyse f ?s))
                   (pb_threshold (analyse f ?s)) (pb_delta (analyse f ?s))
                   (bandEnergy ?m) (frameNow f) ?m)"
  let ?R = "(lastBeatTime ?s > 0 \<and> frameNow f - lastBeatTime ?s > beatSilenceResetMs)
              \<or> frameNow f - lastAudioActive ?m > beatSilenceResetMs"
  let ?T = "lastBeatTime ?s > 0 \<and> frameNow f - lastBeatTime ?s < beatMaxIntervalMs"
  let ?iv = "frameNow f - lastBeatTime ?s"
  have s0: "state_ok s0" "tempo_known s0" "lastBeatTime s0 = 0"
    using assms(1) fresh_state_ok
    by (auto simp add: tempo_known_def AudioAnalyser_new_def init_def)
  have ok: "state_ok ?s" by (rule run_state_ok[OF s0(1) assms(2)])
  have tk: "tempo_known ?s" by (rule run_tempo_known[OF s0(1,2) assms(2)])
  have m: "bpm ?m = bpm ?s" "beatIntervals ?m = beatIntervals ?s"
    by (simp_all add: analyse_fields)
  have 1: "beatIntervals s' = beatIntervals ?s \<and> bpm s' = bpm ?s"
    if "snap_beatDetected out" "lastBeatTime ?s = 0"
  proof -
    from that(1) assms(3) have an: "analyser ?s"
      by (cases "analyser ?s") (auto simp add: update_def emptyState_def)
    note r = tick_result[OF an assms(3)]
    from r(3) r(1) that show ?thesis by (simp add: m)
  qed
  have 2: "snap_beatDetected out
            \<and> 0 < lastBeatTime ?s
            \<and> (\<exists>k<length fs. snap_beatDetected (fst (tr ! k))
                   \<and> frameNow (fs ! k) = lastBeatTime ?s)
            \<and> beatMinIntervalMs < ?iv \<and> ?iv < beatMaxIntervalMs
            \<and> beatIntervals s' = [?iv]
            \<and> bpm s' = Math_round (clamp (60000 / ?iv) 50 200)"
    if b: "bpm ?s = 0" "bpm s' \<noteq> 0"
  proof -
    from b assms(3) have an: "analyser ?s"
      by (cases "analyser ?s") (auto simp add: update_def)
    note r = tick_result[OF an assms(3)]
    consider (tempo) "?d" "?T" | (gap) "?d" "\<not> ?T" | (reset) "\<not> ?d" "?R" | (idle) "\<not> ?d" "\<not> ?R"
      by blast
    then show ?thesis
    proof cases
      case tempo
      from tempo(1) have "lastBeatTime ?m = 0 \<or> frameNow f - lastBeatTime ?m > beatMinIntervalMs"
        unfolding detectBeat_fst by simp
      with tempo(2) have lo: "beatMinIntervalMs < ?iv" by (simp add: analyse_fields)
      from tk b(1) have e: "beatIntervals ?s = []" by (simp add: tempo_known_def)
      from lo have mx: "max ?iv 1 = ?iv" by (simp add: cfg)
      have tu: "beatIntervals (tempoUpdate ?iv ?m) = [?iv]"
        "bpm (tempoUpdate ?iv ?m) = Math_round (clamp (60000 / ?iv) 50 200)"
        by (simp_all add: tempoUpdate_def Let_def m e b(1) pushCapped_def mx cfg)
      from tempo(2) have "lastBeatTime ?s \<noteq> 0" by simp
      from lastBeatTime_is_a_beat[OF s0(3) assms(2) this]
      have ex: "\<exists>k<length fs. snap_beatDetected (fst (tr ! k))
                   \<and> frameNow (fs ! k) = lastBeatTime ?s" .
      from r(2)[OF tempo] r(1) tempo lo ex tu show ?thesis by simp
    next
      case gap
      from r(3)[OF gap] b show ?thesis by (simp add: m)
    next
      case reset
      from r(4)[OF reset] b show ?thesis by simp
    next
      case idle
      from r(5)[OF idle] b show ?thesis by (simp add: m)
    qed
  qed
  from 1 2 show ?thesis by blast
qed

theorem first_tempo_estimate_witness:
  "(run_ticks (take 12 tempoFrames) (init AudioAnalyser_new) = Some (take 12 tempoTrace)
    \<and> state_after (init AudioAnalyser_new) (take 12 tempoTrace) = quietState 12
    \<and> update (constFrame 255 200) (quietState 12)
        = Some (snapshotOf True (replicate frequencyBinCount 255) (beatState 200), beatState 200)
    \<and> snap_beatDetected (snapshotOf True (replicate frequencyBinCount 255) (beatState 200))
    \<and> lastBeatTime (quietState 12) = 0
    \<and> beatIntervals (beatState 200) = beatIntervals (quietState 12)
    \<and> bpm (beatState 200) = bpm (quietState 12))
   \<and> (run_ticks (take 14 tempoFrames) (init AudioAnalyser_new) = Some (take 14 tempoTrace)
    \<and> state_after (init AudioAnalyser_new) (take 14 tempoTrace) = restState 200
    \<and> update (constFrame 255 700) (restState 200)
        = Some (snapshotOf True (replicate frequencyBinCount 255) (secondBeatState 700 [500] 120),
                secondBeatState 700 [500] 120)
    \<and> bpm (restState 200) = 0 \<and> bpm (secondBeatState 700 [500] 120) = 120
    \<and> frameNow (constFrame 255 700) - lastBeatTime (restState 200) = 500
    \<and> beatMinIntervalMs < frameNow (constFrame 255 700) - lastBeatTime (restState 200)
    \<and> frameNow (constFrame 255 700) - lastBeatTime (restState 200) < beatMaxIntervalMs
    \<and> beatIntervals (secondBeatState 700 [500] 120)
        = [frameNow (constFrame 255 700) - lastBeatTime (restState 200)]
    \<and> bpm (secondBeatState 700 [500] 120)
        = Math_round (clamp (60000 / (frameNow (constFrame 255 700) - lastBeatTime (restState 200)))
                        50 200))"
proof -
  have i: "init AudioAnalyser_new = AudioAnalyser_new \<or> init AudioAnalyser_new = init AudioAnalyser_new"
    by simp
  have a1: "run_ticks (take 12 tempoFrames) (init AudioAnalyser_new) = Some (take 12 tempoTrace)"
    by (rule run_ticks_take[OF tempo_run])
  have a2: "state_after (init AudioAnalyser_new) (take 12 tempoTrace) = quietState 12"
    by (simp add: tempoTrace_def quietTrace_def state_after_def last_map)
  have a3: "update (constFrame 255 200) (quietState 12)
        = Some (snapshotOf True (replicate frequencyBinCount 255) (beatState 200), beatState 200)"
    by (rule first_beat_tick)
  have a4: "snap_beatDetected (snapshotOf True (replicate frequencyBinCount 255) (beatState 200))"
    "lastBeatTime (quietState 12) = 0"
    by (simp_all add: snapshotOf_def quietState_def)
  have b1: "run_ticks (take 14 tempoFrames) (init AudioAnalyser_new) = Some (take 14 tempoTrace)"
    by (rule run_ticks_take[OF tempo_run])
  have b2: "state_after (init AudioAnalyser_new) (take 14 tempoTrace) = restState 200"
    by (simp add: tempoTrace_def quietTrace_def state_after_def)
  have b3: "update (constFrame 255 700) (restState 200)
        = Some (snapshotOf True (replicate frequencyBinCount 255) (secondBeatState 700 [500] 120),
                secondBeatState 700 [500] 120)"
    using second_beat_tick[of 200 700] by (simp add: clamp_def Math_round_def)
  have b4: "bpm (restState 200) = 0" "bpm (secondBeatState 700 [500] 120) = 120"
    "bpm (secondBeatState 700 [500] 120) \<noteq> 0"
    "frameNow (constFrame 255 700) - lastBeatTime (restState 200) = 500"
    by (simp_all add: restState_def secondBeatState_def constFrame_sel)
  note A = first_tempo_estimate[OF i a1 a3[folded a2], unfolded a2]
  note B = first_tempo_estimate[OF i b1 b3[folded b2], unfolded b2]
  from A a4 have "beatIntervals (beatState 200) = beatIntervals (quietState 12)
    \<and> bpm (beatState 200) = bpm (quietState 12)" by blast
  moreover from B b4(1,3) have
    "beatMinIntervalMs < frameNow (constFrame 255 700) - lastBeatTime (restState 200)
    \<and> frameNow (constFrame 255 700) - lastBeatTime (restState 200) < beatMaxIntervalMs
    \<and> beatIntervals (secondBeatState 700 [500] 120)
        = [frameNow (constFrame 255 700) - lastBeatTime (restState 200)]
    \<and> bpm (secondBeatState 700 [500] 120)
        = Math_round (clamp (60000 / (frameNow (constFrame 255 700) - lastBeatTime (restState 200)))
                        50 200)" by blast
  ultimately show ?thesis using a1 a2 a3 a4 b1 b2 b3 b4 by blast
qed

subsection \<open>Degenerate input\<close>






subsection \<open>Determinism\<close>


lemma run_uninitialised:
  "\<not> analyser s \<Longrightarrow> run_ticks fs s = Some (map (\<lambda>f. (emptyState, s)) fs)"
  by (induction fs) (simp_all add: update_uninitialised)



subsection \<open>The refractory interval\<close>

lemma tick_confirmed:
  assumes "update f s = Some (out, s')" and "snap_beatDetected out"
  shows "analyser s" and "lastBeatTime s = 0 \<or> frameNow f - lastBeatTime s > beatMinIntervalMs"
    and "lastBeatTime s' = frameNow f" and "pb_threshold (analyse f s) \<noteq> None"
proof -
  show an: "analyser s"
    using assms by (cases "analyser s") (auto simp add: update_def emptyState_def)
  from tick_result(1)[OF an assms(1)] assms(2)
  have d: "fst (detectBeat (pb_normalized (analyse f s)) (pb_flux (analyse f s))
                   (pb_threshold (analyse f s)) (pb_delta (analyse f s))
                   (bandEnergy (pb_state (analyse f s))) (frameNow f) (pb_state (analyse f s)))"
    by simp
  then show "lastBeatTime s = 0 \<or> frameNow f - lastBeatTime s > beatMinIntervalMs"
    and "pb_threshold (analyse f s) \<noteq> None"
    unfolding detectBeat_fst by (simp_all add: analyse_fields)
  from tick_lastBeatTime[OF assms(1)] assms(2) show "lastBeatTime s' = frameNow f" by simp
qed

text \<open>No beat during the warm-up of the threshold, and none without an analyser node.\<close>

lemma beat_after_warm_up:
  "analyser s \<Longrightarrow> length (fluxHistory s) \<le> fluxHistorySize \<Longrightarrow> run_ticks fs s = Some tr \<Longrightarrow>
   i < length fs \<Longrightarrow> snap_beatDetected (fst (tr ! i)) \<Longrightarrow>
   fluxMinWindow \<le> length (fluxHistory s) + i"
proof (induction fs arbitrary: s tr i)
  case Nil
  then show ?case by simp
next
  case (Cons f fs)
  from Cons.prems(3) obtain out s1 tr1 where
    u: "update f s = Some (out, s1)" and r: "run_ticks fs s1 = Some tr1"
    and tr: "tr = (out, s1) # tr1"
    by (auto split: option.splits)
  show ?case
  proof (cases i)
    case 0
    with Cons.prems(5) tr have "snap_beatDetected out" by simp
    from tick_confirmed(4)[OF u this] have "fluxThreshold (fluxHistory s) \<noteq> None"
      by (simp add: analyse_locals)
    then show ?thesis by (simp add: fluxThreshold_None)
  next
    case (Suc j)
    have a1: "analyser s1" by (rule tick_fields(1)[OF Cons.prems(1) u])
    have l1: "length (fluxHistory s1) = min (length (fluxHistory s) + 1) fluxHistorySize"
      using pushCapped_length_eq[OF Cons.prems(2), of "pb_flux (analyse f s)"]
      by (simp add: tick_fields(9)[OF Cons.prems(1) u] analyse_state analyse_locals cfg)
    then have "length (fluxHistory s1) \<le> fluxHistorySize" by simp
    from Cons.IH[OF a1 this r, of j] Cons.prems(4,5) Suc tr
    have "fluxMinWindow \<le> length (fluxHistory s1) + j" by simp
    with l1 Suc show ?thesis by (simp add: cfg)
  qed
qed

lemma no_beat_uninitialised:
  assumes "\<not> analyser s" and "run_ticks fs s = Some tr" and "i < length fs"
  shows "\<not> snap_beatDetected (fst (tr ! i))"
proof -
  from assms(1,2) have "tr = map (\<lambda>f. (emptyState, s)) fs"
    by (simp add: run_uninitialised)
  with assms(3) show ?thesis by (simp add: emptyState_def)
qed

text \<open>
  From a state whose \<open>lastBeatTime\<close> is at least \<open>t0 > 0\<close>, over ticks at times from \<open>t0\<close>
  on: as long as \<open>lastBeatTime\<close> is not set back to 0, the next beat is more than the
  refractory interval after \<open>t0\<close>.
\<close>

lemma next_beat_after_refractory:
  "run_ticks gs s = Some tr \<Longrightarrow> 0 < t0 \<Longrightarrow> t0 \<le> lastBeatTime s \<Longrightarrow>
   \<forall>g\<in>set gs. t0 \<le> frameNow g \<Longrightarrow> j < length gs \<Longrightarrow> snap_beatDetected (fst (tr ! j)) \<Longrightarrow>
   \<forall>k<j. lastBeatTime (snd (tr ! k)) \<noteq> 0 \<Longrightarrow>
   frameNow (gs ! j) - t0 > beatMinIntervalMs"
proof (induction gs arbitrary: s tr j)
  case Nil
  then show ?case by simp
next
  case (Cons g gs)
  from Cons.prems(1) obtain out s1 tr1 where
    u: "update g s = Some (out, s1)" and r: "run_ticks gs s1 = Some tr1"
    and tr: "tr = (out, s1) # tr1"
    by (auto split: option.splits)
  show ?case
  proof (cases j)
    case 0
    with Cons.prems(6) tr have "snap_beatDetected out" by simp
    from tick_confirmed(2)[OF u this] Cons.prems(2,3)
    have "frameNow g - lastBeatTime s > beatMinIntervalMs" by simp
    with Cons.prems(3) 0 show ?thesis by simp
  next
    case (Suc j')
    from Cons.prems(7) Suc tr have nz: "lastBeatTime s1 \<noteq> 0" by auto
    from tick_lastBeatTime[OF u] nz Cons.prems(3,4) have "t0 \<le> lastBeatTime s1" by auto
    moreover have "\<forall>k<j'. lastBeatTime (snd (tr1 ! k)) \<noteq> 0"
      using Cons.prems(7) Suc tr by auto
    ultimately have "frameNow (gs ! j') - t0 > beatMinIntervalMs"
      using Cons.IH[OF r Cons.prems(2), of j'] Cons.prems(4,5,6) Suc tr by simp
    with Suc show ?thesis by simp
  qed
qed

lemma beats_apart:
  "run_ticks fs s = Some tr \<Longrightarrow> sorted_wrt (<) (map frameNow fs) \<Longrightarrow> i < j \<Longrightarrow> j < length fs \<Longrightarrow>
   snap_beatDetected (fst (tr ! i)) \<Longrightarrow> snap_beatDetected (fst (tr ! j)) \<Longrightarrow>
   0 < frameNow (fs ! i) \<Longrightarrow> \<forall>k. i < k \<and> k < j \<longrightarrow> lastBeatTime (snd (tr ! k)) \<noteq> 0 \<Longrightarrow>
   frameNow (fs ! j) - frameNow (fs ! i) > beatMinIntervalMs"
proof (induction fs arbitrary: s tr i j)
  case Nil
  then show ?case by simp
next
  case (Cons f fs)
  from Cons.prems(1) obtain out s1 tr1 where
    u: "update f s = Some (out, s1)" and r: "run_ticks fs s1 = Some tr1"
    and tr: "tr = (out, s1) # tr1"
    by (auto split: option.splits)
  from Cons.prems(3) obtain j' where j: "j = Suc j'" by (cases j) auto
  show ?case
  proof (cases i)
    case 0
    with Cons.prems(5) tr have b: "snap_beatDetected out" by simp
    from tick_confirmed(3)[OF u b] have l: "lastBeatTime s1 = frameNow f" .
    have "frameNow (fs ! j') - frameNow f > beatMinIntervalMs"
    proof (rule next_beat_after_refractory[OF r])
      show "0 < frameNow f" using Cons.prems(7) 0 by simp
      show "frameNow f \<le> lastBeatTime s1" using l by simp
      show "\<forall>g\<in>set fs. frameNow f \<le> frameNow g" using Cons.prems(2) by auto
      show "j' < length fs" using Cons.prems(4) j by simp
      show "snap_beatDetected (fst (tr1 ! j'))" using Cons.prems(6) j tr by simp
      show "\<forall>k<j'. lastBeatTime (snd (tr1 ! k)) \<noteq> 0"
      proof (intro allI impI)
        fix k assume "k < j'"
        with Cons.prems(8)[rule_format, of "Suc k"] 0 j tr
        show "lastBeatTime (snd (tr1 ! k)) \<noteq> 0" by simp
      qed
    qed
    with 0 j show ?thesis by simp
  next
    case (Suc i')
    have "\<forall>k. i' < k \<and> k < j' \<longrightarrow> lastBeatTime (snd (tr1 ! k)) \<noteq> 0"
    proof (intro allI impI)
      fix k assume "i' < k \<and> k < j'"
      with Cons.prems(8)[rule_format, of "Suc k"] Suc j tr
      show "lastBeatTime (snd (tr1 ! k)) \<noteq> 0" by simp
    qed
    with Cons.IH[OF r, of i' j'] Cons.prems(2-7) Suc j tr show ?thesis by simp
  qed
qed

text \<open>
  C2, as the code has it. In a run from the constructed state over ticks at strictly
  increasing, non-negative clock times, two ticks that both confirm a beat are more than
  \<open>beatMinIntervalMs\<close> apart, provided that on no tick between them \<open>lastBeatTime\<close> has been
  set back to 0, which only the silence reset does. The condition of line 297 is on the
  field: on any tick, from any state, a beat is confirmed only if \<open>lastBeatTime\<close> is 0 (no
  beat has fired since the start or since the last reset) or lies more than
  \<open>beatMinIntervalMs\<close> back.
\<close>

theorem refractory_between_resets:
  assumes "s0 = AudioAnalyser_new \<or> s0 = init AudioAnalyser_new"
    and "run_ticks fs s0 = Some tr"
    and "sorted_wrt (<) (map frameNow fs)" and "\<forall>f\<in>set fs. 0 \<le> frameNow f"
    and "i < j" and "j < length fs"
    and "snap_beatDetected (fst (tr ! i))" and "snap_beatDetected (fst (tr ! j))"
    and "\<forall>k. i < k \<and> k < j \<longrightarrow> lastBeatTime (snd (tr ! k)) \<noteq> 0"
  shows "frameNow (fs ! j) - frameNow (fs ! i) > beatMinIntervalMs
       \<and> (\<forall>f s out s'. update f s = Some (out, s') \<and> snap_beatDetected out \<longrightarrow>
             lastBeatTime s = 0 \<or> frameNow f - lastBeatTime s > beatMinIntervalMs)"
proof -
  have il: "i < length fs" using assms(5,6) by simp
  have an: "analyser s0"
    using no_beat_uninitialised[OF _ assms(2) il] assms(7) by blast
  with assms(1) have s0: "s0 = init AudioAnalyser_new"
    by (auto simp add: AudioAnalyser_new_def)
  have "fluxMinWindow \<le> length (fluxHistory s0) + i"
    using an assms(2) il assms(7) by (intro beat_after_warm_up) (simp_all add: s0 init_def AudioAnalyser_new_def)
  then have "0 < i" by (simp add: s0 init_def AudioAnalyser_new_def cfg)
  then have "map frameNow fs ! 0 < map frameNow fs ! i"
    using sorted_wrt_nth_less[OF assms(3), of 0 i] il by simp
  moreover have l0: "0 < length fs" using il by (cases fs) simp_all
  ultimately have "frameNow (fs ! 0) < frameNow (fs ! i)"
    using il by simp
  moreover have "fs ! 0 \<in> set fs" using l0 by (rule nth_mem)
  with assms(4) have "0 \<le> frameNow (fs ! 0)" by blast
  ultimately have "0 < frameNow (fs ! i)" by simp
  from beats_apart[OF assms(2,3,5,6,7,8) this assms(9)] tick_confirmed(2)
  show ?thesis by blast
qed

theorem refractory_between_resets_witness:
  "run_ticks tempoFrames (init AudioAnalyser_new) = Some tempoTrace
   \<and> sorted_wrt (<) (map frameNow tempoFrames)
   \<and> list_all (\<lambda>f. 0 \<le> frameNow f) tempoFrames
   \<and> (12::nat) < 14 \<and> 14 < length tempoFrames
   \<and> snap_beatDetected (fst (tempoTrace ! 12)) \<and> snap_beatDetected (fst (tempoTrace ! 14))
   \<and> lastBeatTime (snd (tempoTrace ! 13)) = 200
   \<and> frameNow (tempoFrames ! 12) = 200 \<and> frameNow (tempoFrames ! 14) = 700
   \<and> frameNow (tempoFrames ! 14) - frameNow (tempoFrames ! 12) > beatMinIntervalMs
   \<and> update (constFrame 255 700) (restState 200)
       = Some (snapshotOf True (replicate frequencyBinCount 255) (secondBeatState 700 [500] 120),
               secondBeatState 700 [500] 120)
   \<and> snap_beatDetected
       (snapshotOf True (replicate frequencyBinCount 255) (secondBeatState 700 [500] 120))
   \<and> lastBeatTime (restState 200) = 200
   \<and> (lastBeatTime (restState 200) = 0
      \<or> frameNow (constFrame 255 700) - lastBeatTime (restState 200) > beatMinIntervalMs)"
proof -
  have i: "init AudioAnalyser_new = AudioAnalyser_new \<or> init AudioAnalyser_new = init AudioAnalyser_new"
    by simp
  have h3: "sorted_wrt (<) (map frameNow tempoFrames)"
    by (simp add: tempoFrames_def constFrame_sel)
  have la: "list_all (\<lambda>f. 0 \<le> frameNow f) tempoFrames"
    by (simp add: tempoFrames_def constFrame_sel)
  then have h4: "\<forall>f\<in>set tempoFrames. 0 \<le> frameNow f"
    by (simp only: list_all_iff)
  have h5: "(12::nat) < 14" "14 < length tempoFrames"
    by (simp_all add: tempoFrames_def)
  have h7: "snap_beatDetected (fst (tempoTrace ! 12))" "snap_beatDetected (fst (tempoTrace ! 14))"
    by (simp_all add: tempoTrace_def quietTrace_def nth_append snapshotOf_def)
  have l13: "lastBeatTime (snd (tempoTrace ! 13)) = 200"
    by (simp add: tempoTrace_def quietTrace_def nth_append restState_def)
  have h9: "\<forall>k. 12 < k \<and> k < 14 \<longrightarrow> lastBeatTime (snd (tempoTrace ! k)) \<noteq> 0"
  proof (intro allI impI)
    fix k :: nat assume "12 < k \<and> k < 14"
    then have "k = 13" by simp
    then show "lastBeatTime (snd (tempoTrace ! k)) \<noteq> 0"
      using l13 by simp
  qed
  have t: "frameNow (tempoFrames ! 12) = 200" "frameNow (tempoFrames ! 14) = 700"
    by (simp_all add: tempoFrames_def nth_append constFrame_sel)
  have u: "update (constFrame 255 700) (restState 200)
       = Some (snapshotOf True (replicate frequencyBinCount 255) (secondBeatState 700 [500] 120),
               secondBeatState 700 [500] 120)"
    using second_beat_tick[of 200 700] by (simp add: clamp_def Math_round_def)
  have b: "snap_beatDetected
       (snapshotOf True (replicate frequencyBinCount 255) (secondBeatState 700 [500] 120))"
    by (simp add: snapshotOf_def)
  have l: "lastBeatTime (restState 200) = 200"
    by (simp add: restState_def)
  from refractory_between_resets[OF i tempo_run h3 h4 h5 h7 h9] tempo_run h3 la h5 h7 l13 t u b l
  show ?thesis by blast
qed

text \<open>
  The claim as stated fails on \<open>burstFrames\<close>: the ticks at 3192 ms and at 3224 ms both
  confirm a beat, 32 ms apart. The time-domain window is silent throughout, so the tick
  between them, which confirms no beat, takes the silence branch of the reset and sets
  \<open>lastBeatTime\<close> back to 0.
\<close>

theorem refractory_counterexample:
  "run_ticks burstFrames (init AudioAnalyser_new) = Some burstTrace
   \<and> sorted_wrt (<) (map frameNow burstFrames)
   \<and> snap_beatDetected (fst (burstTrace ! 12)) \<and> snap_beatDetected (fst (burstTrace ! 14))
   \<and> frameNow (burstFrames ! 12) = 3192 \<and> frameNow (burstFrames ! 14) = 3224
   \<and> \<not> frameNow (burstFrames ! 14) - frameNow (burstFrames ! 12) > beatMinIntervalMs
   \<and> \<not> snap_beatDetected (fst (burstTrace ! 13))
   \<and> lastBeatTime (snd (burstTrace ! 12)) = 3192
   \<and> lastBeatTime (snd (burstTrace ! 13)) = 0"
proof -
  have "sorted_wrt (<) (map frameNow burstFrames)"
    by (simp add: burstFrames_def constFrame_sel)
  moreover have "snap_beatDetected (fst (burstTrace ! 12))"
    "snap_beatDetected (fst (burstTrace ! 14))" "\<not> snap_beatDetected (fst (burstTrace ! 13))"
    "lastBeatTime (snd (burstTrace ! 12)) = 3192" "lastBeatTime (snd (burstTrace ! 13)) = 0"
    by (simp_all add: burstTrace_def quietTrace_def nth_append snapshotOf_def beatState_def
        restState_def)
  moreover have "frameNow (burstFrames ! 12) = 3192" "frameNow (burstFrames ! 14) = 3224"
    by (simp_all add: burstFrames_def nth_append constFrame_sel)
  ultimately show ?thesis using burst_run by (simp add: cfg)
qed

end
